theory Spec2Isabelle
  imports Complex_Main "HOL-Library.Log_Nat"
begin

unbundle bit_operations_syntax

section \<open>Python values used by the arm controller\<close>

text \<open>
  The controller is Python: its integers are unbounded (\<open>int\<close>), its floats are IEEE
  binary64 values and its failures are exceptions. A finite float is represented by the
  real number it denotes; the two infinities and not-a-number are separate values.
  An exception is the left summand of a result.
\<close>

datatype pyexc = TypeError | ValueError | OverflowError | KeyError | EOFError

datatype pyfloat = Fin real | PInf | NInf | NaN

datatype pynum = PyInt int | PyFloat pyfloat

subsection \<open>Rounding to binary64\<close>

definition pow2 :: "int \<Rightarrow> real" where
  "pow2 e = (if 0 \<le> e then 2 ^ nat e else 1 / 2 ^ nat (- e))"

text \<open>The exponent of the leading bit of a positive number.\<close>

definition floor_log2 :: "real \<Rightarrow> int" where
  "floor_log2 x = (if 1 \<le> x then bitlen \<lfloor>x\<rfloor> - 1 else - bitlen (\<lceil>1 / x\<rceil> - 1))"

definition round_half_even :: "real \<Rightarrow> int" where
  "round_half_even x =
     (let f = \<lfloor>x\<rfloor>; r = x - of_int f
      in if r < 1 / 2 then f else if 1 / 2 < r then f + 1 else if even f then f else f + 1)"

text \<open>
  Round to nearest, ties to even, with a 53-bit significand; the spacing never goes
  below \<open>2\<^sup>-\<^sup>1\<^sup>0\<^sup>7\<^sup>4\<close> (subnormal numbers) and a result of magnitude \<open>2\<^sup>1\<^sup>0\<^sup>2\<^sup>4\<close> or
  more is an infinity.
\<close>

definition round_double :: "real \<Rightarrow> pyfloat" where
  "round_double x =
     (if x = 0 then Fin 0
      else let e = max (floor_log2 \<bar>x\<bar> - 52) (- 1074);
               r = of_int (round_half_even (x / pow2 e)) * pow2 e
           in if pow2 1024 \<le> r then PInf else if r \<le> - pow2 1024 then NInf else Fin r)"

text \<open>\<open>x / c\<close> and \<open>x * c\<close> for a float \<open>x\<close> and a positive finite constant \<open>c\<close>.\<close>

fun float_div_pos :: "pyfloat \<Rightarrow> real \<Rightarrow> pyfloat" where
  "float_div_pos (Fin x) c = round_double (x / c)"
| "float_div_pos PInf c = PInf"
| "float_div_pos NInf c = NInf"
| "float_div_pos NaN c = NaN"

fun float_mul_pos :: "pyfloat \<Rightarrow> real \<Rightarrow> pyfloat" where
  "float_mul_pos (Fin x) c = round_double (x * c)"
| "float_mul_pos PInf c = PInf"
| "float_mul_pos NInf c = NInf"
| "float_mul_pos NaN c = NaN"

fun float_add :: "pyfloat \<Rightarrow> pyfloat \<Rightarrow> pyfloat" where
  "float_add (Fin x) (Fin y) = round_double (x + y)"
| "float_add NaN _ = NaN"
| "float_add _ NaN = NaN"
| "float_add PInf NInf = NaN"
| "float_add NInf PInf = NaN"
| "float_add PInf _ = PInf"
| "float_add NInf _ = NInf"
| "float_add _ PInf = PInf"
| "float_add _ NInf = NInf"

fun float_neg :: "pyfloat \<Rightarrow> pyfloat" where
  "float_neg (Fin x) = Fin (- x)"
| "float_neg PInf = NInf"
| "float_neg NInf = PInf"
| "float_neg NaN = NaN"

definition float_sub :: "pyfloat \<Rightarrow> pyfloat \<Rightarrow> pyfloat" where
  "float_sub x y = float_add x (float_neg y)"

text \<open>\<open>float(n)\<close>: an integer too large for a float raises.\<close>

fun py_float :: "pynum \<Rightarrow> pyexc + pyfloat" where
  "py_float (PyInt i) =
     (case round_double (of_int i) of Fin r \<Rightarrow> Inr (Fin r) | _ \<Rightarrow> Inl OverflowError)"
| "py_float (PyFloat f) = Inr f"

text \<open>\<open>int(f)\<close> truncates towards zero and raises on an infinity or not-a-number.\<close>

fun py_int_of_float :: "pyfloat \<Rightarrow> pyexc + int" where
  "py_int_of_float (Fin x) = Inr (if 0 \<le> x then \<lfloor>x\<rfloor> else \<lceil>x\<rceil>)"
| "py_int_of_float PInf = Inl OverflowError"
| "py_int_of_float NInf = Inl OverflowError"
| "py_int_of_float NaN = Inl ValueError"

subsection \<open>Strings\<close>

text \<open>
  \<open>str.strip\<close> and \<open>int(str)\<close> on ASCII text. \<open>str.strip\<close> drops the white space of
  \<open>str.isspace\<close>, which includes the separators 28 to 31. \<open>int\<close> skips only tab, line
  feed, vertical tab, form feed, carriage return and space around the number; it allows
  one sign and single underscores between digits, and it refuses a text of more than
  4300 digits (the interpreter's default limit).
\<close>

definition py_isspace :: "char \<Rightarrow> bool" where
  "py_isspace c = (let n = (of_char c :: nat) in (9 \<le> n \<and> n \<le> 13) \<or> (28 \<le> n \<and> n \<le> 32))"

definition strip :: "string \<Rightarrow> string" where
  "strip s = rev (dropWhile py_isspace (rev (dropWhile py_isspace s)))"

definition is_digit :: "char \<Rightarrow> bool" where
  "is_digit c = (let n = (of_char c :: nat) in 48 \<le> n \<and> n \<le> 57)"

definition digit_val :: "char \<Rightarrow> int" where
  "digit_val c = int (of_char c) - 48"

fun parse_digits :: "int \<Rightarrow> bool \<Rightarrow> string \<Rightarrow> int option" where
  "parse_digits acc after_digit [] = (if after_digit then Some acc else None)"
| "parse_digits acc after_digit (c # cs) =
     (if is_digit c then parse_digits (10 * acc + digit_val c) True cs
      else if c = CHR ''_'' \<and> after_digit \<and> cs \<noteq> [] \<and> is_digit (hd cs)
      then parse_digits acc False cs
      else None)"

definition c_isspace :: "char \<Rightarrow> bool" where
  "c_isspace c = (let n = (of_char c :: nat) in (9 \<le> n \<and> n \<le> 13) \<or> n = 32)"

definition int_max_str_digits :: nat where
  "int_max_str_digits = 4300"

definition py_int_of_str :: "string \<Rightarrow> pyexc + int" where
  "py_int_of_str s =
     (let t = rev (dropWhile c_isspace (rev (dropWhile c_isspace s)));
          r = (case t of
                 [] \<Rightarrow> None
               | c # cs \<Rightarrow>
                   if c = CHR ''-'' then map_option uminus (parse_digits 0 False cs)
                   else if c = CHR ''+'' then parse_digits 0 False cs
                   else parse_digits 0 False (c # cs))
      in case r of
           None \<Rightarrow> Inl ValueError
         | Some i \<Rightarrow>
             if int_max_str_digits < length (filter is_digit t) then Inl ValueError else Inr i)"

text \<open>\<open>str(i)\<close> for an integer: its decimal digits, with a minus sign when negative.\<close>

fun digits_of_nat :: "nat \<Rightarrow> string" where
  "digits_of_nat n =
     (if n < 10 then [char_of (48 + n)] else digits_of_nat (n div 10) @ [char_of (48 + n mod 10)])"

definition py_str_of_int :: "int \<Rightarrow> string" where
  "py_str_of_int i = (if i < 0 then CHR ''-'' # digits_of_nat (nat (- i)) else digits_of_nat (nat i))"

section \<open>The protocol encoder\<close>

text \<open>
  \<open>build_servo_packet\<close> of both controllers: a list of \<open>(servo_id, position, time_ms)\<close>
  triples becomes a list of Python integers. \<open>&\<close> and \<open>>>\<close> are the operations of
  unbounded two's-complement integers.
\<close>

definition FRAME_HEADER :: int where "FRAME_HEADER = 0x55"
definition CMD_SERVO_MOVE :: int where "CMD_SERVO_MOVE = 0x03"

type_synonym servo_move = "int \<times> int \<times> int"

definition build_servo_packet :: "servo_move list \<Rightarrow> int list" where
  "build_servo_packet servos_data =
     (let len = int (length servos_data) * 3 + 5;
          packet = [FRAME_HEADER, FRAME_HEADER, len, CMD_SERVO_MOVE];
          packet = packet @ [int (length servos_data)];
          time_ms = (case servos_data of [] \<Rightarrow> 1000 | (_, _, t) # _ \<Rightarrow> t);
          packet = packet @ [time_ms AND 0xFF];
          packet = packet @ [drop_bit 8 time_ms AND 0xFF]
      in foldl (\<lambda>packet (servo_id, position, _).
                  packet @ [servo_id, position AND 0xFF, drop_bit 8 position AND 0xFF])
           packet servos_data)"

text \<open>
  The conversion of an angle to a raw position, as \<open>move_servo\<close>, \<open>move_multiple_servos\<close>
  and \<open>move_to_angles\<close> write it: \<open>int((angle / 180.0) * 2000) + 500\<close>. Dividing an
  integer by a float converts the integer first, so \<open>float(angle)\<close> is the first step
  in all three.
\<close>

definition angle_to_position :: "pynum \<Rightarrow> pyexc + int" where
  "angle_to_position angle =
     (case py_float angle of
        Inl e \<Rightarrow> Inl e
      | Inr a \<Rightarrow>
          (case py_int_of_float (float_mul_pos (float_div_pos a 180) 2000) of
             Inl e \<Rightarrow> Inl e
           | Inr p \<Rightarrow> Inr (p + 500)))"

text \<open>The packet that \<open>move_servo\<close> of \<open>hiwonder_control\<close> builds for one servo.\<close>

definition move_servo_packet :: "int \<Rightarrow> pynum \<Rightarrow> int \<Rightarrow> pyexc + int list" where
  "move_servo_packet servo_id angle time_ms =
     (case angle_to_position angle of
        Inl e \<Rightarrow> Inl e
      | Inr position \<Rightarrow> Inr (build_servo_packet [(servo_id, position, time_ms)]))"

section \<open>The transport\<close>

text \<open>
  \<open>send_packet\<close> copies the packet into a report of 64 zeros, starting at index 1; an
  entry whose index does not fit is skipped.
\<close>

definition hid_report :: "int list \<Rightarrow> int list" where
  "hid_report packet =
     foldl (\<lambda>hid_packet (i, byte).
              if i + 1 < length hid_packet then hid_packet[i + 1 := byte] else hid_packet)
       (replicate 64 0x00) (enumerate 0 packet)"

text \<open>
  The state of a controller object and of its surroundings: the HID handle (\<open>None\<close>
  before \<open>connect\<close>; otherwise a function telling whether \<open>write\<close> accepts a report or
  raises), the home position, the positions held in memory, the contents of the positions
  file (\<open>None\<close> when the file does not exist) and the trace of what the controller did.
\<close>

datatype pykey = KInt int | KStr string

type_synonym angle_map = "(pykey \<times> pynum) list"
type_synonym store = "(string \<times> angle_map) list"
type_synonym json_store = "(string \<times> (string \<times> pynum) list) list"

datatype event =
    Write "int list"
  | Sleep pyfloat
  | Executing string
  | Not_found string
  | Completed string
  | Returning_home

record robot =
  device :: "(int list \<Rightarrow> bool) option"
  home_position :: angle_map
  saved_positions :: store
  positions_file :: "json_store option"
  trace :: "event list"

type_synonym 'a prog = "robot \<Rightarrow> (pyexc + 'a) \<times> robot"

definition ret :: "'a \<Rightarrow> 'a prog" where
  "ret x s = (Inr x, s)"

definition raise :: "pyexc \<Rightarrow> 'a prog" where
  "raise e s = (Inl e, s)"

definition bind_prog :: "'a prog \<Rightarrow> ('a \<Rightarrow> 'b prog) \<Rightarrow> 'b prog" where
  "bind_prog m f s = (case m s of (Inl e, s') \<Rightarrow> (Inl e, s') | (Inr x, s') \<Rightarrow> f x s')"

definition emit :: "event \<Rightarrow> unit prog" where
  "emit ev s = (Inr (), s\<lparr>trace := trace s @ [ev]\<rparr>)"

text \<open>
  \<open>time.sleep\<close>: not-a-number and a negative length raise \<open>ValueError\<close>, a length whose
  nanosecond count does not fit 64 bits raises \<open>OverflowError\<close>.
\<close>

definition py_sleep :: "pyfloat \<Rightarrow> unit prog" where
  "py_sleep secs =
     (case secs of
        NaN \<Rightarrow> raise ValueError
      | PInf \<Rightarrow> raise OverflowError
      | NInf \<Rightarrow> raise OverflowError
      | Fin x \<Rightarrow>
          (case float_mul_pos secs 1000000000 of
             Fin d \<Rightarrow>
               if - (2 ^ 63) \<le> d \<and> d < 2 ^ 63
               then (if x < 0 then raise ValueError else emit (Sleep secs))
               else raise OverflowError
           | _ \<Rightarrow> raise OverflowError))"

text \<open>
  A float literal of the source is the double nearest to its decimal text.
\<close>

definition float_lit :: "real \<Rightarrow> pyfloat" where
  "float_lit x = round_double x"

definition lit_0_05 :: pyfloat where "lit_0_05 = float_lit (5 / 100)"
definition lit_0_5 :: pyfloat where "lit_0_5 = float_lit (5 / 10)"
definition lit_1_5 :: pyfloat where "lit_1_5 = float_lit (15 / 10)"

definition send_packet :: "int list \<Rightarrow> bool prog" where
  "send_packet packet s =
     (let hid_packet = hid_report packet
      in case device s of
           None \<Rightarrow> (Inr False, s)
         | Some accepts \<Rightarrow>
             if accepts hid_packet
             then bind_prog (emit (Write hid_packet))
                    (\<lambda>_. bind_prog (py_sleep lit_0_05) (\<lambda>_. ret True)) s
             else (Inr False, s))"

text \<open>
  \<open>send_packet\<close> of \<open>hiwonder_control\<close> builds the report in the same way and, after the
  write and the sleep, reads a response; \<open>read_ok\<close> tells whether that read returns or
  raises, in which case the result is \<open>False\<close>.
\<close>

definition send_packet_learm :: "bool \<Rightarrow> int list \<Rightarrow> bool prog" where
  "send_packet_learm read_ok packet s =
     (let hid_packet = hid_report packet
      in case device s of
           None \<Rightarrow> (Inr False, s)
         | Some accepts \<Rightarrow>
             if accepts hid_packet
             then bind_prog (emit (Write hid_packet))
                    (\<lambda>_. bind_prog (py_sleep lit_0_05) (\<lambda>_. ret read_ok)) s
             else (Inr False, s))"

section \<open>Dictionaries\<close>

text \<open>
  A dictionary is the list of its items in insertion order, with distinct keys.
  Assigning to a key that is present replaces its value in place; a new key goes to the
  end.
\<close>

definition dict_get :: "('k \<times> 'v) list \<Rightarrow> 'k \<Rightarrow> 'v option" where
  "dict_get d k = map_of d k"

fun dict_set :: "'k \<Rightarrow> 'v \<Rightarrow> ('k \<times> 'v) list \<Rightarrow> ('k \<times> 'v) list" where
  "dict_set k v [] = [(k, v)]"
| "dict_set k v ((k', v') # d) = (if k' = k then (k', v) # d else (k', v') # dict_set k v d)"

definition dict_of_pairs :: "('k \<times> 'v) list \<Rightarrow> ('k \<times> 'v) list" where
  "dict_of_pairs ps = foldl (\<lambda>d (k, v). dict_set k v d) [] ps"

section \<open>Moving the arm\<close>

fun py_int_of_key :: "pykey \<Rightarrow> pyexc + int" where
  "py_int_of_key (KInt i) = Inr i"
| "py_int_of_key (KStr s) = py_int_of_str s"

text \<open>The loop of \<open>move_to_angles\<close> over the items of the angle map.\<close>

fun servo_moves :: "angle_map \<Rightarrow> int \<Rightarrow> pyexc + servo_move list" where
  "servo_moves [] time_ms = Inr []"
| "servo_moves ((servo_id, angle) # rest) time_ms =
     (case py_int_of_key servo_id of
        Inl e \<Rightarrow> Inl e
      | Inr sid \<Rightarrow>
          (case angle_to_position angle of
             Inl e \<Rightarrow> Inl e
           | Inr position \<Rightarrow>
               (case servo_moves rest time_ms of
                  Inl e \<Rightarrow> Inl e
                | Inr servos_data \<Rightarrow> Inr ((sid, position, time_ms) # servos_data))))"

definition move_to_angles :: "angle_map \<Rightarrow> int \<Rightarrow> bool prog" where
  "move_to_angles angles time_ms =
     (case servo_moves angles time_ms of
        Inl e \<Rightarrow> raise e
      | Inr servos_data \<Rightarrow> send_packet (build_servo_packet servos_data))"

definition go_home :: "int \<Rightarrow> bool prog" where
  "go_home time_ms =
     bind_prog (emit Returning_home) (\<lambda>_ s. move_to_angles (home_position s) time_ms s)"

section \<open>Pressing a button\<close>

text \<open>
  \<open>press_button\<close>: the hover move, then the press move with the angle stored under the
  string key \<open>'5'\<close> lowered by \<open>press_depth\<close>, then the optional return home.
  \<open>dict.get\<close> of a missing key gives \<open>None\<close>, and \<open>float(None)\<close> raises \<open>TypeError\<close>.
\<close>

definition servo_to_press :: pykey where
  "servo_to_press = KStr ''5''"

definition press_angles :: "angle_map \<Rightarrow> pynum \<Rightarrow> pyexc + angle_map" where
  "press_angles position press_depth =
     (case dict_get position servo_to_press of
        None \<Rightarrow> Inl TypeError
      | Some a \<Rightarrow>
          (case py_float a of
             Inl e \<Rightarrow> Inl e
           | Inr current_angle \<Rightarrow>
               (case py_float press_depth of
                  Inl e \<Rightarrow> Inl e
                | Inr depth \<Rightarrow>
                    Inr (dict_set servo_to_press (PyFloat (float_sub current_angle depth))
                           position))))"

definition hold_seconds :: "int \<Rightarrow> pyexc + pyfloat" where
  "hold_seconds press_time =
     (case py_float (PyInt press_time) of
        Inl e \<Rightarrow> Inl e
      | Inr t \<Rightarrow> Inr (float_add (float_div_pos t 1000) lit_0_5))"

definition press_button :: "string \<Rightarrow> pynum \<Rightarrow> int \<Rightarrow> bool \<Rightarrow> bool prog" where
  "press_button position_name press_depth press_time return_home =
     bind_prog (emit (Executing position_name)) (\<lambda>_ s.
       case dict_get (saved_positions s) position_name of
         None \<Rightarrow> bind_prog (emit (Not_found position_name)) (\<lambda>_. ret False) s
       | Some position \<Rightarrow>
           bind_prog (move_to_angles position 1000) (\<lambda>_.
           bind_prog (py_sleep lit_1_5) (\<lambda>_.
           case press_angles position press_depth of
             Inl e \<Rightarrow> raise e
           | Inr press_position \<Rightarrow>
               bind_prog (move_to_angles press_position press_time) (\<lambda>_.
               case hold_seconds press_time of
                 Inl e \<Rightarrow> raise e
               | Inr secs \<Rightarrow>
                   bind_prog (py_sleep secs) (\<lambda>_.
                   bind_prog (if return_home
                              then bind_prog (go_home 1000) (\<lambda>_. py_sleep (Fin 1))
                              else ret ()) (\<lambda>_.
                   bind_prog (emit (Completed position_name)) (\<lambda>_. ret True)))))) s)"

text \<open>The defaults of the signature: \<open>press_depth=6, press_time=500, return_home=True\<close>.\<close>

definition default_press_depth :: pynum where "default_press_depth = PyInt 6"
definition default_press_time :: int where "default_press_time = 500"

section \<open>Sequences\<close>

text \<open>
  A step of a sequence is a position name, a dictionary with the entry \<open>'button'\<close> and
  the optional entries \<open>'depth'\<close> and \<open>'time'\<close>, or a value of another type, which
  \<open>run_sequence\<close> passes over.
\<close>

datatype step = Name string | Options string "pynum option" "int option" | Other

definition delay_seconds :: "int \<Rightarrow> pyexc + pyfloat" where
  "delay_seconds delay =
     (case py_float (PyInt delay) of Inl e \<Rightarrow> Inl e | Inr t \<Rightarrow> Inr (float_div_pos t 1000))"

definition run_step :: "step \<Rightarrow> unit prog" where
  "run_step st =
     (case st of
        Name name \<Rightarrow>
          bind_prog (press_button name default_press_depth default_press_time False)
            (\<lambda>_. ret ())
      | Options name depth_opt time_opt \<Rightarrow>
          (let depth = (case depth_opt of None \<Rightarrow> PyInt 10 | Some d \<Rightarrow> d);
               press_time = (case time_opt of None \<Rightarrow> 500 | Some t \<Rightarrow> t)
           in bind_prog (press_button name depth press_time False) (\<lambda>_. ret ()))
      | Other \<Rightarrow> ret ())"

fun run_steps :: "step list \<Rightarrow> int \<Rightarrow> unit prog" where
  "run_steps [] delay = ret ()"
| "run_steps (st # rest) delay =
     bind_prog (run_step st) (\<lambda>_.
     bind_prog (case delay_seconds delay of Inl e \<Rightarrow> raise e | Inr secs \<Rightarrow> py_sleep secs) (\<lambda>_.
     run_steps rest delay))"

fun run_repeats :: "nat \<Rightarrow> step list \<Rightarrow> int \<Rightarrow> unit prog" where
  "run_repeats 0 sequence delay = ret ()"
| "run_repeats (Suc n) sequence delay =
     bind_prog (run_steps sequence delay) (\<lambda>_. run_repeats n sequence delay)"

definition run_sequence :: "step list \<Rightarrow> int \<Rightarrow> int \<Rightarrow> bool \<Rightarrow> unit prog" where
  "run_sequence sequence repeat delay return_home =
     bind_prog (run_repeats (nat repeat) sequence delay) (\<lambda>_.
     if return_home then bind_prog (go_home 1000) (\<lambda>_. py_sleep (Fin 1)) else ret ())"

section \<open>The position store\<close>

text \<open>
  \<open>save_positions\<close> writes \<open>saved_positions\<close> with \<open>json.dump\<close>, \<open>load_positions\<close> reads
  the file with \<open>json.load\<close>. The file is represented by the document it holds: an
  object of objects of numbers, each object being the list of its members as written.
  \<open>json.dump\<close> writes an integer key as its decimal text; \<open>json.load\<close> builds each
  dictionary by assigning the members in order, so that the last member of a repeated
  key wins.
\<close>

fun key_to_json :: "pykey \<Rightarrow> string" where
  "key_to_json (KStr s) = s"
| "key_to_json (KInt i) = py_str_of_int i"

definition json_dump :: "store \<Rightarrow> json_store" where
  "json_dump positions =
     map (\<lambda>(name, angles). (name, map (\<lambda>(k, v). (key_to_json k, v)) angles)) positions"

definition json_load :: "json_store \<Rightarrow> store" where
  "json_load doc =
     dict_of_pairs
       (map (\<lambda>(name, members). (name, dict_of_pairs (map (\<lambda>(k, v). (KStr k, v)) members))) doc)"

definition load_positions :: "robot \<Rightarrow> store" where
  "load_positions s = (case positions_file s of None \<Rightarrow> [] | Some doc \<Rightarrow> json_load doc)"

definition save_positions :: "unit prog" where
  "save_positions s = (Inr (), s\<lparr>positions_file := Some (json_dump (saved_positions s))\<rparr>)"

section \<open>Teaching a position\<close>

text \<open>Comparison with, and addition of, an integer literal.\<close>

fun num_less_int :: "pynum \<Rightarrow> int \<Rightarrow> bool" where
  "num_less_int (PyInt i) k = (i < k)"
| "num_less_int (PyFloat (Fin x)) k = (x < of_int k)"
| "num_less_int (PyFloat NInf) k = True"
| "num_less_int (PyFloat PInf) k = False"
| "num_less_int (PyFloat NaN) k = False"

fun num_greater_int :: "pynum \<Rightarrow> int \<Rightarrow> bool" where
  "num_greater_int (PyInt i) k = (k < i)"
| "num_greater_int (PyFloat (Fin x)) k = (of_int k < x)"
| "num_greater_int (PyFloat PInf) k = True"
| "num_greater_int (PyFloat NInf) k = False"
| "num_greater_int (PyFloat NaN) k = False"

fun num_add_int :: "pynum \<Rightarrow> int \<Rightarrow> pynum" where
  "num_add_int (PyInt i) k = PyInt (i + k)"
| "num_add_int (PyFloat f) k = PyFloat (float_add f (Fin (of_int k)))"

fun num_sub_int :: "pynum \<Rightarrow> int \<Rightarrow> pynum" where
  "num_sub_int (PyInt i) k = PyInt (i - k)"
| "num_sub_int (PyFloat f) k = PyFloat (float_sub f (Fin (of_int k)))"

text \<open>\<open>command in '123456'\<close> is a substring test.\<close>

fun is_substring :: "string \<Rightarrow> string \<Rightarrow> bool" where
  "is_substring xs [] = (xs = [])"
| "is_substring xs (y # ys) = (take (length xs) (y # ys) = xs \<or> is_substring xs ys)"

text \<open>
  One pass through the body of the \<open>while True\<close> loop of \<open>teach_position\<close>, on the line
  that \<open>input\<close> returned. The prompt reads \<open>current_angles[selected_servo]\<close> first.
\<close>

datatype loop_outcome = Return bool | Continue angle_map int

definition teach_iteration :: "string \<Rightarrow> string \<Rightarrow> angle_map \<Rightarrow> int \<Rightarrow> loop_outcome prog" where
  "teach_iteration name line current_angles selected_servo =
     (case dict_get current_angles (KInt selected_servo) of
        None \<Rightarrow> raise KeyError
      | Some angle \<Rightarrow>
          (let command = strip line
           in if command = ''q'' then ret (Return False)
              else if command = ''s'' then
                (\<lambda>s. bind_prog save_positions (\<lambda>_. ret (Return True))
                       (s\<lparr>saved_positions := dict_set name current_angles (saved_positions s)\<rparr>))
              else if is_substring command ''123456'' then
                (case py_int_of_str command of
                   Inl e \<Rightarrow> raise e
                 | Inr n \<Rightarrow> ret (Continue current_angles n))
              else if command = ''+'' then
                (if num_less_int angle 180
                 then (let current_angles =
                             dict_set (KInt selected_servo) (num_add_int angle 5) current_angles
                       in bind_prog (move_to_angles current_angles 200)
                            (\<lambda>_. ret (Continue current_angles selected_servo)))
                 else ret (Continue current_angles selected_servo))
              else if command = ''-'' then
                (if num_greater_int angle 0
                 then (let current_angles =
                             dict_set (KInt selected_servo) (num_sub_int angle 5) current_angles
                       in bind_prog (move_to_angles current_angles 200)
                            (\<lambda>_. ret (Continue current_angles selected_servo)))
                 else ret (Continue current_angles selected_servo))
              else ret (Continue current_angles selected_servo)))"

text \<open>
  The loop, on the lines that \<open>input\<close> will return; at the end of the input \<open>input\<close>
  raises \<open>EOFError\<close>.
\<close>

fun teach_loop :: "string \<Rightarrow> string list \<Rightarrow> angle_map \<Rightarrow> int \<Rightarrow> bool prog" where
  "teach_loop name [] current_angles selected_servo s =
     (case dict_get current_angles (KInt selected_servo) of
        None \<Rightarrow> (Inl KeyError, s)
      | Some _ \<Rightarrow> (Inl EOFError, s))"
| "teach_loop name (line # rest) current_angles selected_servo s =
     (case teach_iteration name line current_angles selected_servo s of
        (Inl e, s') \<Rightarrow> (Inl e, s')
      | (Inr (Return b), s') \<Rightarrow> (Inr b, s')
      | (Inr (Continue angles n), s') \<Rightarrow> teach_loop name rest angles n s')"

definition teach_position :: "string \<Rightarrow> string list \<Rightarrow> bool prog" where
  "teach_position name inputs s =
     (let current_angles = home_position s
      in bind_prog (move_to_angles current_angles 1000)
           (\<lambda>_. teach_loop name inputs current_angles 1) s)"

text \<open>
  The states of the teaching loop: the angle map, the selected servo and the controller
  at the head of the loop.
\<close>

inductive teach_reach :: "string \<Rightarrow> robot \<Rightarrow> angle_map \<times> int \<times> robot \<Rightarrow> bool"
  for name :: string and s0 :: robot where
  teach_start:
    "move_to_angles (home_position s0) 1000 s0 = (Inr b, s1) \<Longrightarrow>
     teach_reach name s0 (home_position s0, 1, s1)"
| teach_step:
    "teach_reach name s0 (angles, n, s) \<Longrightarrow>
     teach_iteration name line angles n s = (Inr (Continue angles' n'), s') \<Longrightarrow>
     teach_reach name s0 (angles', n', s')"

section \<open>Devices and states used in examples\<close>

text \<open>A device that takes any report of byte values, as the HID library does.\<close>

definition usb_device :: "int list \<Rightarrow> bool" where
  "usb_device report = list_all (\<lambda>b. 0 \<le> b \<and> b \<le> 255) report"

text \<open>The controller right after construction and \<open>connect\<close>, with no positions file.\<close>

definition default_home :: angle_map where
  "default_home =
     [(KInt 1, PyInt 80), (KInt 2, PyInt 90), (KInt 3, PyInt 180),
      (KInt 4, PyInt 130), (KInt 5, PyInt 90), (KInt 6, PyInt 70)]"

definition fresh_robot :: robot where
  "fresh_robot =
     \<lparr>device = Some usb_device, home_position = default_home, saved_positions = [],
      positions_file = None, trace = []\<rparr>"

section \<open>Notions used in the properties\<close>

text \<open>
  The two bytes of a little-endian 16-bit field holding \<open>x\<close>: the low byte first.
\<close>

definition le16 :: "int \<Rightarrow> int list" where
  "le16 x = [(x mod 65536) mod 256, (x mod 65536) div 256]"

text \<open>A move list of nineteen entries, whose frame has 64 bytes.\<close>

definition nineteen_moves :: "servo_move list" where
  "nineteen_moves = replicate 19 (1, 1500, 1000)"

text \<open>A number that lies between two integer bounds.\<close>

fun num_within :: "int \<Rightarrow> int \<Rightarrow> pynum \<Rightarrow> bool" where
  "num_within lo hi (PyInt i) = (lo \<le> i \<and> i \<le> hi)"
| "num_within lo hi (PyFloat (Fin x)) = (of_int lo \<le> x \<and> x \<le> of_int hi)"
| "num_within lo hi (PyFloat PInf) = False"
| "num_within lo hi (PyFloat NInf) = False"
| "num_within lo hi (PyFloat NaN) = False"

text \<open>The raw position as the specification words it, with rounding to the nearest integer.\<close>

definition rounded_position :: "real \<Rightarrow> int" where
  "rounded_position a = round_half_even (a / 180 * 2000) + 500"

text \<open>A controller holding three positions, two as loaded from the file and one as taught.\<close>

definition example_store :: store where
  "example_store =
     [(''a'', [(KStr ''5'', PyInt 90)]),
      (''b'', [(KStr ''4'', PyInt 70), (KStr ''5'', PyInt 5)]),
      (''t'', [(KInt 5, PyInt 90)])]"

definition loaded_robot :: robot where
  "loaded_robot = fresh_robot\<lparr>saved_positions := example_store\<rparr>"


text \<open>
  A move list whose keys convert to integers and whose angles are finite and of magnitude
  at most \<open>2\<^sup>1\<^sup>0\<^sup>0\<^sup>0\<close>: nothing is required of the range of the ids or of the angles.
\<close>

definition plain_moves :: "angle_map \<Rightarrow> bool" where
  "plain_moves angles =
     list_all (\<lambda>(k, a). (case py_int_of_key k of Inl _ \<Rightarrow> False | Inr _ \<Rightarrow> True)
                       \<and> num_within (- (2 ^ 1000)) (2 ^ 1000) a) angles"

text \<open>The press angle as the specification words it, clamped at 0.\<close>

definition clamped_angle :: "real \<Rightarrow> real \<Rightarrow> real" where
  "clamped_angle a depth = max 0 (a - depth)"


text \<open>An angle map whose keys are all integers, as \<open>teach_position\<close> stores it.\<close>

fun is_int_key :: "pykey \<Rightarrow> bool" where
  "is_int_key (KInt i) = True"
| "is_int_key (KStr s) = False"

definition int_keyed :: "angle_map \<Rightarrow> bool" where
  "int_keyed position = list_all is_int_key (map fst position)"

text \<open>
  The events that mark the start of a press and of a return home, and what a program adds
  to them when it returns.
\<close>

fun is_mark :: "event \<Rightarrow> bool" where
  "is_mark (Executing name) = True"
| "is_mark Returning_home = True"
| "is_mark (Write report) = False"
| "is_mark (Sleep secs) = False"
| "is_mark (Not_found name) = False"
| "is_mark (Completed name) = False"

definition marks_of :: "event list \<Rightarrow> event list" where
  "marks_of tr = filter is_mark tr"

definition adds :: "'a prog \<Rightarrow> event list \<Rightarrow> bool" where
  "adds m marks =
     (\<forall>s x s'. m s = (Inr x, s') \<longrightarrow> (\<exists>tr. trace s' = trace s @ tr \<and> marks_of tr = marks))"

text \<open>
  A store as a dictionary of dictionaries holds it, with no name and no key twice, and a
  store whose servo keys are all strings.
\<close>

fun is_str_key :: "pykey \<Rightarrow> bool" where
  "is_str_key (KStr s) = True"
| "is_str_key (KInt i) = False"

definition well_formed_store :: "store \<Rightarrow> bool" where
  "well_formed_store positions =
     (distinct (map fst positions) \<and> list_all (\<lambda>(name, angles). distinct (map fst angles)) positions)"

definition string_keyed :: "store \<Rightarrow> bool" where
  "string_keyed positions =
     list_all (\<lambda>(name, angles). list_all (\<lambda>(k, v). is_str_key k) angles) positions"


text \<open>
  An angle map whose angles all lie in \<open>[0, 180]\<close>, and one whose angles are integer
  multiples of the teaching step of 5 degrees in that range.
\<close>

definition angles_within :: "angle_map \<Rightarrow> bool" where
  "angles_within angles = list_all (\<lambda>(k, a). num_within 0 180 a) angles"

fun on_step :: "pynum \<Rightarrow> bool" where
  "on_step (PyInt i) = (0 \<le> i \<and> i \<le> 180 \<and> i mod 5 = 0)"
| "on_step (PyFloat f) = False"

definition step_aligned :: "angle_map \<Rightarrow> bool" where
  "step_aligned angles = list_all (\<lambda>(k, a). on_step a) angles"

text \<open>
  A controller whose home position, set with \<open>set_home_position\<close>, has servo 1 at 178
  degrees, off the 5-degree grid, and the angle map after one increment of servo 1.
\<close>

definition offset_home :: angle_map where
  "offset_home =
     [(KInt 1, PyInt 178), (KInt 2, PyInt 90), (KInt 3, PyInt 180),
      (KInt 4, PyInt 130), (KInt 5, PyInt 90), (KInt 6, PyInt 70)]"

definition offset_robot :: robot where
  "offset_robot = fresh_robot\<lparr>home_position := offset_home\<rparr>"

definition offset_taught :: angle_map where
  "offset_taught =
     [(KInt 1, PyInt 183), (KInt 2, PyInt 90), (KInt 3, PyInt 180),
      (KInt 4, PyInt 130), (KInt 5, PyInt 90), (KInt 6, PyInt 70)]"


text \<open>The frame of the default home position, and the controller after teaching it as \<open>k\<close>.\<close>

definition home_frame :: "int list" where
  "home_frame = [0x55, 0x55, 23, 3, 6, 0xE8, 3, 1, 0x6C, 5, 2, 0xDC, 5, 3, 0xC4, 9,
                 4, 0x98, 7, 5, 0xDC, 5, 6, 0xFD, 4]"


definition taught_robot :: robot where
  "taught_robot =
     fresh_robot\<lparr>saved_positions := [(''k'', default_home)],
                  positions_file := Some (json_dump [(''k'', default_home)]),
                  trace := [Write (hid_report home_frame), Sleep lit_0_05]\<rparr>"

section \<open>Properties of the encoder and the transport\<close>

lemmas float_eval =
  round_double_def floor_log2_def compute_bitlen pow2_def round_half_even_def float_lit_def

lemma and_255_mod: "(x::int) AND 0xFF = x mod 256"
proof -
  have "x AND mask 8 = take_bit 8 x" by (simp add: take_bit_eq_mask)
  then show ?thesis by (simp add: take_bit_eq_mod mask_eq_exp_minus_1)
qed

lemma drop_8_and_255: "drop_bit 8 (x::int) AND 0xFF = (x mod 65536) div 256"
proof -
  have "drop_bit 8 x AND 0xFF = take_bit 8 (drop_bit 8 x)"
    by (simp only: and_255_mod) (simp add: take_bit_eq_mod)
  also have "\<dots> = drop_bit 8 (take_bit 16 x)"
    by (simp add: drop_bit_take_bit)
  also have "\<dots> = (x mod 65536) div 256"
    by (simp add: take_bit_eq_mod drop_bit_eq_div)
  finally show ?thesis .
qed

lemma and_255_le16: "(x::int) AND 0xFF = (x mod 65536) mod 256"
  by (simp only: and_255_mod) (simp add: mod_mod_cancel)

lemma servo_loop_concat:
  "foldl (\<lambda>packet (servo_id, position, _).
            packet @ [servo_id, position AND 0xFF, drop_bit 8 position AND 0xFF]) acc servos_data
   = acc @ concat (map (\<lambda>(servo_id, position, _). servo_id # le16 position) servos_data)"
proof (induction servos_data arbitrary: acc)
  case Nil
  show ?case by simp
next
  case (Cons m ms)
  obtain i p t where m: "m = (i, p, t)" by (cases m)
  have "[i, p AND 0xFF, drop_bit 8 p AND 0xFF] = i # le16 p"
    by (simp only: le16_def drop_8_and_255) (simp only: and_255_le16)
  then show ?case
    by (simp only: m foldl_Cons list.map concat.simps prod.case Cons.IH append_assoc)
qed

lemma hid_loop:
  assumes f: "\<And>h i b. f h (i, b) = (if i + 1 < length h then h[i + 1 := b] else h)"
  shows "foldl f h (enumerate n packet)
   = take (Suc n) h @ take (length h - Suc n) packet @ drop (Suc n + length packet) h"
proof (induction packet arbitrary: n h)
  case Nil
  then show ?case by simp
next
  case (Cons x xs)
  show ?case
  proof (cases "Suc n < length h")
    case True
    then show ?thesis
      by (simp add: Cons.IH f take_Suc_conv_app_nth[of "Suc n"] take_Cons'
            del: upd_conv_take_nth_drop)
  next
    case False
    then show ?thesis by (simp add: Cons.IH f)
  qed
qed

lemma hid_report_eq:
  "hid_report packet = 0 # take 63 packet @ replicate (63 - length packet) 0"
  unfolding hid_report_def by (subst hid_loop) simp_all

lemma length_hid_report: "length (hid_report packet) = 64"
  by (simp add: hid_report_eq)

lemma py_sleep_send: "py_sleep lit_0_05 = emit (Sleep lit_0_05)"
  by (simp add: py_sleep_def lit_0_05_def float_eval)

lemma py_sleep_hover: "py_sleep lit_1_5 = emit (Sleep lit_1_5)"
  by (simp add: py_sleep_def lit_1_5_def float_eval)

lemma py_sleep_one: "py_sleep (Fin 1) = emit (Sleep (Fin 1))"
  by (simp add: py_sleep_def float_eval)

lemma send_packet_accepted:
  "device s = Some accepts \<Longrightarrow> accepts (hid_report packet) \<Longrightarrow>
   send_packet packet s =
     (Inr True, s\<lparr>trace := trace s @ [Write (hid_report packet), Sleep lit_0_05]\<rparr>)"
  by (simp add: send_packet_def py_sleep_send bind_prog_def emit_def ret_def)

lemma send_packet_refused:
  "device s = Some accepts \<Longrightarrow> \<not> accepts (hid_report packet) \<Longrightarrow>
   send_packet packet s = (Inr False, s)"
  by (simp add: send_packet_def)

lemma send_packet_unconnected: "device s = None \<Longrightarrow> send_packet packet s = (Inr False, s)"
  by (simp add: send_packet_def)

lemma send_packet_returns: "\<exists>b s'. send_packet packet s = (Inr b, s')"
proof (cases "device s")
  case None
  then show ?thesis by (auto simp: send_packet_unconnected)
next
  case (Some accepts)
  then show ?thesis
    by (cases "accepts (hid_report packet)")
       (auto simp: send_packet_accepted send_packet_refused)
qed

lemma send_packet_learm_accepted:
  "device s = Some accepts \<Longrightarrow> accepts (hid_report packet) \<Longrightarrow>
   send_packet_learm read_ok packet s =
     (Inr read_ok, s\<lparr>trace := trace s @ [Write (hid_report packet), Sleep lit_0_05]\<rparr>)"
  by (simp add: send_packet_learm_def py_sleep_send bind_prog_def emit_def ret_def)

lemma send_packet_learm_returns: "\<exists>b s'. send_packet_learm read_ok packet s = (Inr b, s')"
proof (cases "device s")
  case None
  then show ?thesis by (auto simp: send_packet_learm_def)
next
  case (Some accepts)
  show ?thesis
  proof (cases "accepts (hid_report packet)")
    case True
    from send_packet_learm_accepted [OF Some True] show ?thesis by blast
  next
    case False
    then show ?thesis using Some by (auto simp: send_packet_learm_def)
  qed
qed

text \<open>
  C1. Encoding the move of servo 1 to 90 degrees in 1000 ms gives the frame
  \<open>55 55 08 03 01 E8 03 01 DC 05\<close>. For every non-empty move list of \<open>N\<close> entries the
  frame is \<open>0x55 0x55\<close>, the length \<open>N * 3 + 5\<close>, \<open>0x03\<close>, \<open>N\<close>, the duration of the first
  move as a little-endian 16-bit field and then, for each move in list order, its servo id
  followed by its raw position as a little-endian 16-bit field.
\<close>

theorem build_servo_packet_frame:
  "move_servo_packet 1 (PyInt 90) 1000
     = Inr [0x55, 0x55, 0x08, 0x03, 0x01, 0xE8, 0x03, 0x01, 0xDC, 0x05]
   \<and> (\<forall>servos_data. servos_data \<noteq> [] \<longrightarrow>
        build_servo_packet servos_data =
          [0x55, 0x55, int (length servos_data) * 3 + 5, 0x03, int (length servos_data)]
          @ le16 (snd (snd (hd servos_data)))
          @ concat (map (\<lambda>(servo_id, position, _). servo_id # le16 position) servos_data))"
proof (intro conjI allI impI)
  show "move_servo_packet 1 (PyInt 90) 1000
     = Inr [0x55, 0x55, 0x08, 0x03, 0x01, 0xE8, 0x03, 0x01, 0xDC, 0x05]"
    by (simp add: move_servo_packet_def angle_to_position_def float_eval
          build_servo_packet_def FRAME_HEADER_def CMD_SERVO_MOVE_def)
next
  fix servos_data :: "servo_move list"
  assume "servos_data \<noteq> []"
  then obtain i p t rest where sd: "servos_data = (i, p, t) # rest"
    by (cases servos_data) auto
  have "[t AND 0xFF, drop_bit 8 t AND 0xFF] = le16 t"
    by (simp only: le16_def drop_8_and_255) (simp only: and_255_le16)
  then have t: "[x, y, t AND 0xFF, drop_bit 8 t AND 0xFF] = [x, y] @ le16 t" for x y :: int
    by simp
  show "build_servo_packet servos_data =
          [0x55, 0x55, int (length servos_data) * 3 + 5, 0x03, int (length servos_data)]
          @ le16 (snd (snd (hd servos_data)))
          @ concat (map (\<lambda>(servo_id, position, _). servo_id # le16 position) servos_data)"
    unfolding build_servo_packet_def Let_def servo_loop_concat
    by (simp add: sd FRAME_HEADER_def CMD_SERVO_MOVE_def t del: foldl_Cons)
qed

theorem build_servo_packet_frame_witness:
  "[(1, 1500, 1000), (6, 2500, 70000)] \<noteq> ([] :: servo_move list)
   \<and> build_servo_packet [(1, 1500, 1000), (6, 2500, 70000)]
       = [0x55, 0x55, 11, 0x03, 2, 0xE8, 0x03, 1, 0xDC, 0x05, 6, 0xC4, 0x09]"
  using build_servo_packet_frame [THEN conjunct2, rule_format, of "[(1, 1500, 1000), (6, 2500, 70000)]"]
  by (simp add: le16_def)

lemma frame19: "build_servo_packet nineteen_moves =
   [0x55, 0x55, 62, 3, 19, 0xE8, 3] @ concat (replicate 19 [1, 0xDC, 5])"
  by (simp add: build_servo_packet_def nineteen_moves_def FRAME_HEADER_def CMD_SERVO_MOVE_def eval_nat_numeral)

text \<open>
  C5. The claim that a frame longer than 63 bytes makes the send fail does not hold: the
  frame for nineteen servos has 64 bytes, it is sent, and its last byte is not in the
  report.
\<close>

theorem send_packet_truncates_counterexample:
  "length (build_servo_packet nineteen_moves) = 64
   \<and> send_packet (build_servo_packet nineteen_moves) fresh_robot
       = (Inr True,
          fresh_robot\<lparr>trace := [Write (0 # butlast (build_servo_packet nineteen_moves)),
                                Sleep lit_0_05]\<rparr>)"
proof -
  have len: "length (build_servo_packet nineteen_moves) = 64"
    by (simp add: frame19 eval_nat_numeral)
  have rep: "hid_report (build_servo_packet nineteen_moves)
               = 0 # butlast (build_servo_packet nineteen_moves)"
    by (simp add: hid_report_eq len butlast_conv_take)
  have acc: "usb_device (hid_report (build_servo_packet nineteen_moves))"
    unfolding rep by (simp add: frame19 usb_device_def eval_nat_numeral)
  have dev: "device fresh_robot = Some usb_device"
    by (simp add: fresh_robot_def)
  show ?thesis
    using send_packet_accepted [OF dev acc] len rep by (simp add: fresh_robot_def)
qed

text \<open>
  C5, as amended. The report has 64 entries, entry 0 is \<open>0x00\<close>, the frame follows from
  entry 1 and the tail is zero; only the first 63 bytes of a longer frame are carried.
  \<open>send_packet\<close> never raises in either controller, and when the device takes the report
  it is written; the result is then \<open>True\<close>, or in \<open>hiwonder_control\<close> whether the read
  of the response returned.
\<close>

theorem send_packet_report:
  "hid_report packet = 0 # take 63 packet @ replicate (63 - length packet) 0
   \<and> length (hid_report packet) = 64
   \<and> (\<exists>b s'. send_packet packet s = (Inr b, s'))
   \<and> (device s = Some accepts \<and> accepts (hid_report packet) \<longrightarrow>
        send_packet packet s
          = (Inr True, s\<lparr>trace := trace s @ [Write (hid_report packet), Sleep lit_0_05]\<rparr>))
   \<and> (\<exists>b s'. send_packet_learm read_ok packet s = (Inr b, s'))
   \<and> (device s = Some accepts \<and> accepts (hid_report packet) \<longrightarrow>
        send_packet_learm read_ok packet s
          = (Inr read_ok,
             s\<lparr>trace := trace s @ [Write (hid_report packet), Sleep lit_0_05]\<rparr>))"
  using hid_report_eq length_hid_report send_packet_returns send_packet_accepted
    send_packet_learm_returns send_packet_learm_accepted
  by blast

theorem send_packet_report_witness:
  "device fresh_robot = Some usb_device
   \<and> usb_device (hid_report [0x55, 0x55, 0x08, 0x03, 0x01, 0xE8, 0x03, 0x01, 0xDC, 0x05])
   \<and> send_packet [0x55, 0x55, 0x08, 0x03, 0x01, 0xE8, 0x03, 0x01, 0xDC, 0x05] fresh_robot
       = (Inr True,
          fresh_robot\<lparr>trace :=
            [Write ([0x00, 0x55, 0x55, 0x08, 0x03, 0x01, 0xE8, 0x03, 0x01, 0xDC, 0x05]
                    @ replicate 53 0),
             Sleep lit_0_05]\<rparr>)"
proof -
  have dev: "device fresh_robot = Some usb_device"
    by (simp add: fresh_robot_def)
  have acc: "usb_device (hid_report [0x55, 0x55, 0x08, 0x03, 0x01, 0xE8, 0x03, 0x01, 0xDC, 0x05])"
    by (simp add: hid_report_eq usb_device_def list_all_iff)
  show ?thesis
    using send_packet_report [of "[0x55, 0x55, 0x08, 0x03, 0x01, 0xE8, 0x03, 0x01, 0xDC, 0x05]"
            fresh_robot usb_device] dev acc
    by (simp add: fresh_robot_def)
qed

section \<open>Properties of the float arithmetic\<close>

lemma pow2_powi: "pow2 e = 2 powi e"
proof (cases "0 \<le> e")
  case True
  then show ?thesis by (simp add: pow2_def power_int_def)
next
  case False
  then have "2 powi e = inverse (2::real) ^ nat (- e)" by (simp add: power_int_def)
  also have "\<dots> = 1 / 2 ^ nat (- e)" by (simp only: inverse_eq_divide power_one_over)
  finally show ?thesis using False by (simp add: pow2_def)
qed

lemma pow2_pos: "0 < pow2 e"
  by (simp add: pow2_powi)

lemma pow2_mono: "a \<le> b \<Longrightarrow> pow2 a \<le> pow2 b"
  by (simp add: pow2_powi power_int_increasing)

lemma pow2_add: "pow2 (a + b) = pow2 a * pow2 b"
  by (simp add: pow2_powi power_int_add)

lemma pow2_nat: "pow2 (int n) = 2 ^ n"
  by (simp add: pow2_def)

lemma pow2_neg_nat: "pow2 (- int n) = 1 / 2 ^ n"
  by (simp add: pow2_powi power_int_minus_divide)

lemma floor_log2_bounds:
  assumes "0 < x"
  shows "pow2 (floor_log2 x) \<le> x \<and> x < pow2 (floor_log2 x + 1)"
proof (cases "1 \<le> x")
  case True
  define n where "n = \<lfloor>x\<rfloor>"
  have n: "0 < n" using True by (simp add: n_def)
  have b: "2 ^ nat (bitlen n - 1) \<le> n \<and> n < 2 ^ nat (bitlen n)"
    using bitlen_bounds [OF n] .
  have bl: "1 \<le> bitlen n" using n by (simp add: bitlen_alt_def)
  have fl: "floor_log2 x = bitlen n - 1" using True by (simp add: floor_log2_def n_def)
  have "pow2 (bitlen n - 1) = 2 ^ nat (bitlen n - 1)" using bl by (simp add: pow2_def)
  also have "\<dots> = of_int (2 ^ nat (bitlen n - 1))" by simp
  also have "\<dots> \<le> of_int n" using b by (simp only: of_int_le_iff)
  also have "\<dots> \<le> x" by (simp add: n_def)
  finally have lo: "pow2 (floor_log2 x) \<le> x" by (simp add: fl)
  have "x < of_int (n + 1)" unfolding n_def by linarith
  also have "\<dots> \<le> of_int (2 ^ nat (bitlen n))" using b by (simp only: of_int_le_iff) simp
  also have "\<dots> = pow2 (bitlen n)" using bl by (simp add: pow2_def)
  finally have hi: "x < pow2 (floor_log2 x + 1)" by (simp add: fl)
  show ?thesis using lo hi by simp
next
  case False
  define y where "y = 1 / x"
  have y: "1 < y" using False assms by (simp add: y_def)
  define n where "n = \<lceil>y\<rceil> - 1"
  have n: "0 < n" using y unfolding n_def by linarith
  have ny: "of_int n < y" "y \<le> of_int n + 1" unfolding n_def by linarith+
  have b: "2 ^ nat (bitlen n - 1) \<le> n \<and> n < 2 ^ nat (bitlen n)"
    using bitlen_bounds [OF n] .
  have bl: "1 \<le> bitlen n" using n by (simp add: bitlen_alt_def)
  have fl: "floor_log2 x = - bitlen n" using False by (simp add: floor_log2_def n_def y_def)
  have "y \<le> of_int (n + 1)" using ny by simp
  also have "\<dots> \<le> of_int (2 ^ nat (bitlen n))" using b by (simp only: of_int_le_iff) simp
  also have "\<dots> = 2 ^ nat (bitlen n)" by simp
  finally have "1 / x \<le> 2 ^ nat (bitlen n)" by (simp add: y_def)
  then have "1 / 2 ^ nat (bitlen n) \<le> x" using assms
    by (simp add: field_simps)
  moreover have "pow2 (- bitlen n) = 1 / 2 ^ nat (bitlen n)" using bl by (simp add: pow2_def)
  ultimately have lo: "pow2 (floor_log2 x) \<le> x" by (simp add: fl)
  have "(2::real) ^ nat (bitlen n - 1) = of_int (2 ^ nat (bitlen n - 1))" by simp
  also have "\<dots> \<le> of_int n" using b by (simp only: of_int_le_iff)
  also have "\<dots> < y" using ny by simp
  finally have "2 ^ nat (bitlen n - 1) < 1 / x" by (simp add: y_def)
  then have "x < 1 / 2 ^ nat (bitlen n - 1)" using assms
    by (simp add: field_simps)
  moreover have "pow2 (- bitlen n + 1) = 1 / 2 ^ nat (bitlen n - 1)"
    using bl by (simp add: pow2_def) 
  ultimately have hi: "x < pow2 (floor_log2 x + 1)" by (simp add: fl)
  show ?thesis using lo hi by simp
qed

lemma floor_log2_mono:
  assumes "0 < x" "x \<le> y"
  shows "floor_log2 x \<le> floor_log2 y"
proof (rule ccontr)
  assume "\<not> floor_log2 x \<le> floor_log2 y"
  then have "floor_log2 y + 1 \<le> floor_log2 x" by simp
  then have "pow2 (floor_log2 y + 1) \<le> pow2 (floor_log2 x)" by (rule pow2_mono)
  moreover have "y < pow2 (floor_log2 y + 1)" using floor_log2_bounds [of y] assms by simp
  moreover have "pow2 (floor_log2 x) \<le> x" using floor_log2_bounds [of x] assms by simp
  ultimately show False using assms by linarith
qed

lemma round_half_even_le: "y \<le> of_int N \<Longrightarrow> round_half_even y \<le> N"
  unfolding round_half_even_def Let_def
  by (auto simp: not_less) linarith+

lemma round_half_even_ge: "of_int N \<le> y \<Longrightarrow> N \<le> round_half_even y"
  unfolding round_half_even_def Let_def
  by (auto simp: not_less) linarith+

lemma round_double_between:
  assumes x: "x \<noteq> 0"
    and lo: "of_int a * pow2 (max (floor_log2 \<bar>x\<bar> - 52) (- 1074)) \<le> x"
    and hi: "x \<le> of_int b * pow2 (max (floor_log2 \<bar>x\<bar> - 52) (- 1074))"
    and lo_fin: "- pow2 1024 < of_int a * pow2 (max (floor_log2 \<bar>x\<bar> - 52) (- 1074))"
    and hi_fin: "of_int b * pow2 (max (floor_log2 \<bar>x\<bar> - 52) (- 1074)) < pow2 1024"
  shows "\<exists>r. round_double x = Fin r
             \<and> of_int a * pow2 (max (floor_log2 \<bar>x\<bar> - 52) (- 1074)) \<le> r
             \<and> r \<le> of_int b * pow2 (max (floor_log2 \<bar>x\<bar> - 52) (- 1074))"
proof -
  define e where "e = max (floor_log2 \<bar>x\<bar> - 52) (- 1074)"
  define m where "m = round_half_even (x / pow2 e)"
  have p: "0 < pow2 e" by (rule pow2_pos)
  have "of_int a \<le> x / pow2 e" using lo p by (simp add: e_def pos_le_divide_eq)
  then have am: "a \<le> m" unfolding m_def by (rule round_half_even_ge)
  have "x / pow2 e \<le> of_int b" using hi p by (simp add: e_def pos_divide_le_eq)
  then have mb: "m \<le> b" unfolding m_def by (rule round_half_even_le)
  have r_lo: "of_int a * pow2 e \<le> of_int m * pow2 e"
    using am p by (simp add: mult_right_mono)
  have r_hi: "of_int m * pow2 e \<le> of_int b * pow2 e"
    using mb p by (simp add: mult_right_mono)
  have "round_double x = Fin (of_int m * pow2 e)"
    using x r_lo r_hi lo_fin hi_fin
    by (simp add: round_double_def Let_def e_def [symmetric] m_def [symmetric])
  then show ?thesis using r_lo r_hi by (simp add: e_def)
qed

lemma round_double_bounded:
  assumes c: "0 < c"
    and rep: "c = of_int m * pow2 (max (floor_log2 c - 52) (- 1074))"
    and fin: "c < pow2 1024"
    and x: "\<bar>x\<bar> \<le> c"
  shows "\<exists>r. round_double x = Fin r \<and> \<bar>r\<bar> \<le> c \<and> (0 \<le> x \<longrightarrow> 0 \<le> r) \<and> (x \<le> 0 \<longrightarrow> r \<le> 0)"
proof (cases "x = 0")
  case True
  then show ?thesis using c by (simp add: round_double_def)
next
  case False
  define ec where "ec = max (floor_log2 c - 52) (- 1074)"
  define e where "e = max (floor_log2 \<bar>x\<bar> - 52) (- 1074)"
  have "floor_log2 \<bar>x\<bar> \<le> floor_log2 c"
    using False x by (intro floor_log2_mono) simp_all
  then have ee: "e \<le> ec" by (simp add: e_def ec_def)
  define k where "k = m * 2 ^ nat (ec - e)"
  have "pow2 ec = pow2 (int (nat (ec - e)) + e)" using ee by simp
  also have "\<dots> = 2 ^ nat (ec - e) * pow2 e" by (simp only: pow2_add pow2_nat)
  finally have ck: "c = of_int k * pow2 e"
    using rep by (simp add: k_def ec_def [symmetric])
  have z: "of_int 0 * pow2 e = 0" by simp
  have fin0: "- pow2 1024 < (0::real)" "(0::real) < pow2 1024"
    using pow2_pos [of 1024] by simp_all
  note rb = round_double_between [OF False, folded e_def]
  show ?thesis
  proof (cases "0 < x")
    case True
    have "\<exists>r. round_double x = Fin r \<and> of_int 0 * pow2 e \<le> r \<and> r \<le> of_int k * pow2 e"
    proof (rule rb)
      show "of_int 0 * pow2 e \<le> x" using True by simp
      show "x \<le> of_int k * pow2 e" using x ck by simp
      show "- pow2 1024 < of_int 0 * pow2 e" using fin0 by simp
      show "of_int k * pow2 e < pow2 1024" using fin ck by simp
    qed
    then show ?thesis using True ck by auto
  next
    case neg: False
    then have xn: "x < 0" using False by simp
    have "\<exists>r. round_double x = Fin r \<and> of_int (- k) * pow2 e \<le> r \<and> r \<le> of_int 0 * pow2 e"
    proof (rule rb)
      show "of_int (- k) * pow2 e \<le> x" using x ck by simp
      show "x \<le> of_int 0 * pow2 e" using xn by simp
      show "- pow2 1024 < of_int (- k) * pow2 e" using fin ck by simp
      show "of_int 0 * pow2 e < pow2 1024" using fin0 by simp
    qed
    then show ?thesis using xn ck by auto
  qed
qed

lemma rep_1: "(1::real) = of_int (2 ^ 52) * pow2 (max (floor_log2 1 - 52) (- 1074))"
  by (simp add: floor_log2_def compute_bitlen pow2_def)

lemma rep_180: "(180::real) = of_int (180 * 2 ^ 45) * pow2 (max (floor_log2 180 - 52) (- 1074))"
  by (simp add: floor_log2_def compute_bitlen pow2_def)

lemma rep_2000: "(2000::real) = of_int (2000 * 2 ^ 42) * pow2 (max (floor_log2 2000 - 52) (- 1074))"
  by (simp add: floor_log2_def compute_bitlen pow2_def)

lemma fin_small: "(1::real) < pow2 1024" "(180::real) < pow2 1024" "(2000::real) < pow2 1024"
  by (simp_all add: pow2_def)


lemma py_float_within:
  assumes "num_within 0 180 angle"
  shows "\<exists>a. py_float angle = Inr (Fin a) \<and> 0 \<le> a \<and> a \<le> 180"
proof (cases angle)
  case (PyInt i)
  then have i: "0 \<le> i" "i \<le> 180" using assms by simp_all
  then have "\<bar>real_of_int i\<bar> \<le> 180" by simp
  from round_double_bounded [OF _ rep_180 fin_small(2) this]
  obtain r where "round_double (of_int i) = Fin r" "\<bar>r\<bar> \<le> 180" "0 \<le> r"
    using i by auto
  then show ?thesis using PyInt by simp
next
  case (PyFloat f)
  then show ?thesis using assms by (cases f) simp_all
qed

lemma position_of_within:
  assumes "0 \<le> a" "a \<le> 180"
  shows "\<exists>p. py_int_of_float (float_mul_pos (float_div_pos (Fin a) 180) 2000) = Inr p
             \<and> 0 \<le> p \<and> p \<le> 2000"
proof -
  have "\<bar>a / 180\<bar> \<le> 1" using assms by simp
  from round_double_bounded [OF _ rep_1 fin_small(1) this]
  obtain q where q: "round_double (a / 180) = Fin q" "\<bar>q\<bar> \<le> 1" "0 \<le> q"
    using assms by auto
  then have "\<bar>q * 2000\<bar> \<le> 2000" by simp
  from round_double_bounded [OF _ rep_2000 fin_small(3) this]
  obtain r where r: "round_double (q * 2000) = Fin r" "\<bar>r\<bar> \<le> 2000" "0 \<le> r"
    using q by auto
  have "0 \<le> \<lfloor>r\<rfloor>" "\<lfloor>r\<rfloor> \<le> 2000" using r by (simp_all add: floor_le_iff) 
  then show ?thesis using q r by simp
qed

text \<open>
  C2. The claim that the raw position is \<open>round(a / 180.0 * 2000) + 500\<close> does not hold:
  the code truncates. At 5 degrees the code gives 555, the rounded formula 556.
\<close>

theorem angle_to_position_truncates_counterexample:
  "angle_to_position (PyInt 5) = Inr 555 \<and> rounded_position 5 = 556"
  by (simp add: angle_to_position_def rounded_position_def float_eval)

text \<open>
  C2, as amended. The raw position is \<open>int((a / 180.0) * 2000) + 500\<close>, the product
  truncated. For every angle in \<open>[0, 180]\<close>, integer or float, the conversion succeeds and
  the result lies in \<open>[500, 2500]\<close>; 0 gives 500, 90 gives 1500 and 180 gives 2500.
\<close>

theorem angle_to_position_range:
  "(num_within 0 180 angle \<longrightarrow>
      (\<exists>p. angle_to_position angle = Inr p \<and> 500 \<le> p \<and> p \<le> 2500))
   \<and> angle_to_position (PyInt 0) = Inr 500
   \<and> angle_to_position (PyInt 90) = Inr 1500
   \<and> angle_to_position (PyInt 180) = Inr 2500
   \<and> angle_to_position (PyFloat (Fin 0)) = Inr 500
   \<and> angle_to_position (PyFloat (Fin 90)) = Inr 1500
   \<and> angle_to_position (PyFloat (Fin 180)) = Inr 2500"
proof (intro conjI impI)
  assume "num_within 0 180 angle"
  then obtain a where a: "py_float angle = Inr (Fin a)" "0 \<le> a" "a \<le> 180"
    using py_float_within by blast
  from position_of_within [OF a(2,3)]
  obtain p where "py_int_of_float (float_mul_pos (float_div_pos (Fin a) 180) 2000) = Inr p"
    "0 \<le> p" "p \<le> 2000" by blast
  then show "\<exists>p. angle_to_position angle = Inr p \<and> 500 \<le> p \<and> p \<le> 2500"
    using a by (simp add: angle_to_position_def)
qed (simp_all add: angle_to_position_def float_eval)

theorem angle_to_position_range_witness:
  "num_within 0 180 (PyFloat (Fin (45 / 2)))
   \<and> angle_to_position (PyFloat (Fin (45 / 2))) = Inr 750"
proof -
  have e: "angle_to_position (PyFloat (Fin (45 / 2))) = Inr 750"
    by (simp add: angle_to_position_def float_eval)
  show ?thesis
    using angle_to_position_range [of "PyFloat (Fin (45 / 2))"] e by simp
qed

section \<open>Properties of the moves and of the press\<close>

lemma bind_emit: "bind_prog (emit ev) f s = f () (s\<lparr>trace := trace s @ [ev]\<rparr>)"
  by (simp add: bind_prog_def emit_def)

lemma bind_ret: "bind_prog (ret x) f s = f x s"
  by (simp add: bind_prog_def ret_def)

lemma bind_raise: "bind_prog (raise e) f s = (Inl e, s)"
  by (simp add: bind_prog_def raise_def)

lemma bind_result:
  "m s = (Inr x, s') \<Longrightarrow> bind_prog m f s = f x s'"
  "m s = (Inl e, s') \<Longrightarrow> bind_prog m f s = (Inl e, s')"
  by (simp_all add: bind_prog_def)

lemma positions_eval:
  "angle_to_position (PyInt 90) = Inr 1500"
  "angle_to_position (PyInt 70) = Inr 1277"
  "angle_to_position (PyInt 5) = Inr 555"
  "angle_to_position (PyInt 200) = Inr 2722"
  "angle_to_position (PyFloat (Fin 84)) = Inr 1433"
  "angle_to_position (PyFloat (Fin 80)) = Inr 1388"
  "angle_to_position (PyFloat (Fin (- 5))) = Inr 445"
  by (simp_all add: angle_to_position_def float_eval)

lemma press_angles_eval:
  "press_angles [(KStr ''5'', PyInt 90)] (PyInt 6) = Inr [(KStr ''5'', PyFloat (Fin 84))]"
  "press_angles [(KStr ''5'', PyInt 90)] (PyInt 10) = Inr [(KStr ''5'', PyFloat (Fin 80))]"
  "press_angles [(KStr ''4'', PyInt 70), (KStr ''5'', PyInt 5)] (PyInt 10)
     = Inr [(KStr ''4'', PyInt 70), (KStr ''5'', PyFloat (Fin (- 5)))]"
  by (simp_all add: press_angles_def dict_get_def servo_to_press_def float_sub_def float_eval)

lemma hold_seconds_500: "hold_seconds 500 = Inr (Fin 1)"
  by (simp add: hold_seconds_def lit_0_5_def float_eval)

lemma delay_seconds_500: "delay_seconds 500 = Inr lit_0_5"
  by (simp add: delay_seconds_def lit_0_5_def float_eval)

lemma py_sleep_half: "py_sleep lit_0_5 = emit (Sleep lit_0_5)"
  by (simp add: py_sleep_def lit_0_5_def float_eval)

lemma key_five: "py_int_of_str ''5'' = Inr 5" "py_int_of_str ''4'' = Inr 4"
  by (simp_all add: py_int_of_str_def c_isspace_def is_digit_def digit_val_def
        int_max_str_digits_def)

lemma usb_device_report:
  "usb_device (hid_report packet) = list_all (\<lambda>b. 0 \<le> b \<and> b \<le> 255) (take 63 packet)"
  by (auto simp: usb_device_def hid_report_eq list_all_iff)

lemma send_packet_usb:
  "device s = Some usb_device \<Longrightarrow> list_all (\<lambda>b. 0 \<le> b \<and> b \<le> 255) (take 63 packet) \<Longrightarrow>
   send_packet packet s
     = (Inr True, s\<lparr>trace := trace s @ [Write (hid_report packet), Sleep lit_0_05]\<rparr>)"
  by (rule send_packet_accepted [where accepts = usb_device]) (simp_all add: usb_device_report)

lemmas run_eval =
  bind_emit bind_ret bind_raise dict_get_def move_to_angles_def positions_eval key_five
  press_angles_eval hold_seconds_500 delay_seconds_500 py_sleep_one py_sleep_hover py_sleep_half
  send_packet_usb build_servo_packet_def FRAME_HEADER_def CMD_SERVO_MOVE_def
  bind_result ret_def


lemma pow2_strict_mono: "a < b \<Longrightarrow> pow2 a < pow2 b"
  by (simp add: pow2_powi power_int_strict_increasing)

lemma floor_log2_unique:
  assumes "pow2 k \<le> x" "x < pow2 (k + 1)"
  shows "floor_log2 x = k"
proof -
  have x: "0 < x" using assms(1) pow2_pos [of k] by linarith
  note b = floor_log2_bounds [OF x]
  have "\<not> floor_log2 x < k"
  proof
    assume "floor_log2 x < k"
    then have "pow2 (floor_log2 x + 1) \<le> pow2 k" by (intro pow2_mono) simp
    then show False using b assms by linarith
  qed
  moreover have "\<not> k < floor_log2 x"
  proof
    assume "k < floor_log2 x"
    then have "pow2 (k + 1) \<le> pow2 (floor_log2 x)" by (intro pow2_mono) simp
    then show False using b assms by linarith
  qed
  ultimately show ?thesis by simp
qed

lemma rep_pow2:
  assumes "- 1022 \<le> k"
  shows "pow2 k = of_int (2 ^ 52) * pow2 (max (floor_log2 (pow2 k) - 52) (- 1074))"
proof -
  have "floor_log2 (pow2 k) = k"
    by (rule floor_log2_unique) (simp_all add: pow2_strict_mono)
  then have "max (floor_log2 (pow2 k) - 52) (- 1074) = k - 52" using assms by simp
  moreover have "pow2 k = pow2 52 * pow2 (k - 52)"
    using pow2_add [of 52 "k - 52"] by simp
  moreover have "pow2 52 = of_int (2 ^ 52)" by (simp add: pow2_def)
  ultimately show ?thesis by simp
qed

lemma round_double_pow2_bound:
  assumes "- 1022 \<le> k" "k < 1024" "\<bar>x\<bar> \<le> pow2 k"
  shows "\<exists>r. round_double x = Fin r \<and> \<bar>r\<bar> \<le> pow2 k"
proof -
  have "pow2 k < pow2 1024" using assms(2) by (rule pow2_strict_mono)
  from round_double_bounded [OF pow2_pos rep_pow2 [OF assms(1)] this assms(3)]
  show ?thesis by blast
qed

lemma angle_to_position_total:
  assumes "num_within (- (2 ^ 1000)) (2 ^ 1000) angle"
  shows "\<exists>p. angle_to_position angle = Inr p"
proof -
  have p1000: "pow2 1000 = 2 ^ 1000" by (simp add: pow2_def)
  have "\<exists>a. py_float angle = Inr (Fin a) \<and> \<bar>a\<bar> \<le> pow2 1000"
  proof (cases angle)
    case (PyInt i)
    then have "- (2 ^ 1000) \<le> i" "i \<le> 2 ^ 1000" using assms by simp_all
    then have "real_of_int (- (2 ^ 1000)) \<le> real_of_int i" "real_of_int i \<le> real_of_int (2 ^ 1000)"
      by (simp_all only: of_int_le_iff)
    then have "\<bar>real_of_int i\<bar> \<le> pow2 1000"
      unfolding p1000 by simp
    from round_double_pow2_bound [OF _ _ this]
    obtain r where "round_double (of_int i) = Fin r" "\<bar>r\<bar> \<le> pow2 1000" by auto
    then show ?thesis using PyInt by simp
  next
    case (PyFloat f)
    then show ?thesis using assms unfolding p1000 by (cases f) (simp_all add: abs_le_iff)
  qed
  then obtain a where a: "py_float angle = Inr (Fin a)" "\<bar>a\<bar> \<le> pow2 1000" by blast
  have "\<bar>a / 180\<bar> \<le> \<bar>a\<bar>" by simp
  then have "\<bar>a / 180\<bar> \<le> pow2 1000" using a by linarith
  from round_double_pow2_bound [OF _ _ this]
  obtain q where q: "round_double (a / 180) = Fin q" "\<bar>q\<bar> \<le> pow2 1000" by auto
  have "\<bar>q * 2000\<bar> \<le> pow2 1000 * 2048" using q by (simp add: abs_mult)
  also have "\<dots> = pow2 1011" by (simp add: pow2_def)
  finally have "\<bar>q * 2000\<bar> \<le> pow2 1011" .
  from round_double_pow2_bound [OF _ _ this]
  obtain r where r: "round_double (q * 2000) = Fin r" by auto
  show ?thesis using a q r by (simp add: angle_to_position_def)
qed

lemma build_servo_packet_layout:
  "build_servo_packet servos_data =
     [0x55, 0x55, int (length servos_data) * 3 + 5, 0x03, int (length servos_data)]
     @ le16 (case servos_data of [] \<Rightarrow> 1000 | (_, _, t) # _ \<Rightarrow> t)
     @ concat (map (\<lambda>(servo_id, position, _). servo_id # le16 position) servos_data)"
proof -
  have t: "[x, y, t AND 0xFF, drop_bit 8 t AND 0xFF] = [x, y] @ le16 t" for x y t :: int
    by (simp only: le16_def drop_8_and_255) (simp only: and_255_le16, simp)
  show ?thesis
    unfolding build_servo_packet_def Let_def servo_loop_concat
    by (simp add: FRAME_HEADER_def CMD_SERVO_MOVE_def t)
qed

lemma servo_moves_plain:
  "plain_moves angles \<Longrightarrow>
   \<exists>servos_data. servo_moves angles time_ms = Inr servos_data
     \<and> map (\<lambda>m. Inr (fst m)) servos_data = map (\<lambda>ka. py_int_of_key (fst ka)) angles
     \<and> map (\<lambda>m. Inr (fst (snd m))) servos_data = map (\<lambda>ka. angle_to_position (snd ka)) angles
     \<and> map (\<lambda>m. snd (snd m)) servos_data = map (\<lambda>ka. time_ms) angles"
proof (induction angles)
  case Nil
  then show ?case by simp
next
  case (Cons ka angles)
  obtain k a where ka: "ka = (k, a)" by (cases ka)
  from Cons.prems obtain i where i: "py_int_of_key k = Inr i"
    by (auto simp: plain_moves_def ka split: sum.splits)
  from Cons.prems have "num_within (- (2 ^ 1000)) (2 ^ 1000) a"
    by (simp add: plain_moves_def ka)
  then obtain p where p: "angle_to_position a = Inr p"
    using angle_to_position_total by blast
  from Cons.prems have "plain_moves angles" by (simp add: plain_moves_def)
  from Cons.IH [OF this] obtain ms where ms: "servo_moves angles time_ms = Inr ms"
    "map (\<lambda>m. Inr (fst m)) ms = map (\<lambda>ka. py_int_of_key (fst ka)) angles"
    "map (\<lambda>m. Inr (fst (snd m))) ms = map (\<lambda>ka. angle_to_position (snd ka)) angles"
    "map (\<lambda>m. snd (snd m)) ms = map (\<lambda>ka. time_ms) angles" by blast
  show ?case using i p ms by (simp add: ka)
qed

lemma frame_of_moves:
  assumes "map (\<lambda>m. snd (snd m)) servos_data = map (\<lambda>ka. time_ms) angles"
  shows "build_servo_packet servos_data =
           [0x55, 0x55, int (length angles) * 3 + 5, 0x03, int (length angles)]
           @ le16 (if angles = [] then 1000 else time_ms)
           @ concat (map (\<lambda>m. fst m # le16 (fst (snd m))) servos_data)"
proof -
  have len: "length servos_data = length angles"
    using assms by (metis length_map)
  have first: "(case servos_data of [] \<Rightarrow> 1000 | (_, _, t) # _ \<Rightarrow> t)
                 = (if angles = [] then 1000 else time_ms)"
  proof (cases servos_data)
    case Nil
    then show ?thesis using len by simp
  next
    case (Cons m ms)
    obtain i q t where m: "m = (i, q, t)" by (cases m)
    from Cons len obtain ka rest where an: "angles = ka # rest" by (cases angles) auto
    then have "t = time_ms" using assms Cons m by simp
    then show ?thesis using Cons m an by simp
  qed
  have body: "map (\<lambda>(servo_id, position, _). servo_id # le16 position) servos_data
                = map (\<lambda>m. fst m # le16 (fst (snd m))) servos_data"
    by (rule map_cong) auto
  show ?thesis
    unfolding build_servo_packet_layout first body len ..
qed

text \<open>
  C3. The claim that a servo id outside \<open>1..6\<close> or an angle outside \<open>0..180\<close> makes the
  encoding fail does not hold: servo 7 at 90 degrees and servo 1 at 200 degrees are
  encoded and written to the device, and \<open>move_servo\<close> builds the frame of servo 7 at 200
  degrees.
\<close>

theorem move_to_angles_unvalidated_counterexample:
  "move_to_angles [(KInt 7, PyInt 90)] 1000 fresh_robot
     = (Inr True,
        fresh_robot\<lparr>trace := [Write (hid_report [0x55, 0x55, 8, 3, 1, 0xE8, 3, 7, 0xDC, 5]),
                              Sleep lit_0_05]\<rparr>)
   \<and> move_to_angles [(KInt 1, PyInt 200)] 1000 fresh_robot
     = (Inr True,
        fresh_robot\<lparr>trace := [Write (hid_report [0x55, 0x55, 8, 3, 1, 0xE8, 3, 1, 0xA2, 0x0A]),
                              Sleep lit_0_05]\<rparr>)
   \<and> move_servo_packet 7 (PyInt 200) 1000
     = Inr [0x55, 0x55, 8, 3, 1, 0xE8, 3, 7, 0xA2, 0x0A]"
  by (simp add: fresh_robot_def move_servo_packet_def run_eval)

text \<open>
  C3, as amended. The encoder checks neither servo ids nor angles. For every move list
  whose keys convert to integers and whose angles are finite and of magnitude at most
  \<open>2\<^sup>1\<^sup>0\<^sup>0\<^sup>0\<close>, the encoding succeeds and the frame that goes to the transport holds,
  for each move in order, the servo id as given and the low 16 bits of the raw position
  as converted, as a little-endian field, without a clamp.
\<close>

theorem servo_moves_unvalidated:
  "plain_moves angles \<longrightarrow>
     (\<exists>servos_data. servo_moves angles time_ms = Inr servos_data
        \<and> map (\<lambda>m. Inr (fst m)) servos_data = map (\<lambda>ka. py_int_of_key (fst ka)) angles
        \<and> map (\<lambda>m. Inr (fst (snd m))) servos_data = map (\<lambda>ka. angle_to_position (snd ka)) angles
        \<and> move_to_angles angles time_ms =
            send_packet
              ([0x55, 0x55, int (length angles) * 3 + 5, 0x03, int (length angles)]
               @ le16 (if angles = [] then 1000 else time_ms)
               @ concat (map (\<lambda>m. fst m # le16 (fst (snd m))) servos_data)))"
proof
  assume "plain_moves angles"
  from servo_moves_plain [OF this, of time_ms] obtain ms where
    ms: "servo_moves angles time_ms = Inr ms"
    "map (\<lambda>m. Inr (fst m)) ms = map (\<lambda>ka. py_int_of_key (fst ka)) angles"
    "map (\<lambda>m. Inr (fst (snd m))) ms = map (\<lambda>ka. angle_to_position (snd ka)) angles"
    "map (\<lambda>m. snd (snd m)) ms = map (\<lambda>ka. time_ms) angles" by blast
  have "move_to_angles angles time_ms = send_packet (build_servo_packet ms)"
    by (simp add: move_to_angles_def ms(1))
  then have "move_to_angles angles time_ms =
            send_packet
              ([0x55, 0x55, int (length angles) * 3 + 5, 0x03, int (length angles)]
               @ le16 (if angles = [] then 1000 else time_ms)
               @ concat (map (\<lambda>m. fst m # le16 (fst (snd m))) ms))"
    by (simp only: frame_of_moves [OF ms(4)])
  then show "\<exists>servos_data. servo_moves angles time_ms = Inr servos_data
        \<and> map (\<lambda>m. Inr (fst m)) servos_data = map (\<lambda>ka. py_int_of_key (fst ka)) angles
        \<and> map (\<lambda>m. Inr (fst (snd m))) servos_data = map (\<lambda>ka. angle_to_position (snd ka)) angles
        \<and> move_to_angles angles time_ms =
            send_packet
              ([0x55, 0x55, int (length angles) * 3 + 5, 0x03, int (length angles)]
               @ le16 (if angles = [] then 1000 else time_ms)
               @ concat (map (\<lambda>m. fst m # le16 (fst (snd m))) servos_data))"
    using ms(1,2,3) by blast
qed

theorem servo_moves_unvalidated_witness:
  "plain_moves [(KInt 7, PyInt 90), (KStr ''5'', PyInt 6000)]
   \<and> servo_moves [(KInt 7, PyInt 90), (KStr ''5'', PyInt 6000)] 1000
       = Inr [(7, 1500, 1000), (5, 67166, 1000)]
   \<and> move_to_angles [(KInt 7, PyInt 90), (KStr ''5'', PyInt 6000)] 1000
       = send_packet [0x55, 0x55, 11, 3, 2, 0xE8, 3, 7, 0xDC, 5, 5, 0x5E, 6]"
proof -
  let ?angles = "[(KInt 7, PyInt 90), (KStr ''5'', PyInt 6000)]"
  have pm: "plain_moves ?angles"
    by (simp add: plain_moves_def key_five)
  have p: "angle_to_position (PyInt 6000) = Inr 67166"
    by (simp add: angle_to_position_def float_eval)
  have sm: "servo_moves ?angles 1000 = Inr [(7, 1500, 1000), (5, 67166, 1000)]"
    by (simp add: positions_eval p key_five)
  from servo_moves_unvalidated [of ?angles 1000] pm sm
  have "move_to_angles ?angles 1000 =
            send_packet
              ([0x55, 0x55, int (length ?angles) * 3 + 5, 0x03, int (length ?angles)]
               @ le16 (if ?angles = [] then 1000 else 1000)
               @ concat (map (\<lambda>m. fst m # le16 (fst (snd m)))
                           [(7, 1500, 1000), (5, 67166, 1000)]))"
    by auto
  then show ?thesis using pm sm by (simp add: le16_def)
qed

lemma round_double_int:
  assumes "\<bar>i\<bar> < 2 ^ 53"
  shows "round_double (of_int i) = Fin (of_int i)"
proof (cases "i = 0")
  case True
  then show ?thesis by (simp add: round_double_def)
next
  case False
  define x where "x = real_of_int i"
  define e where "e = max (floor_log2 \<bar>x\<bar> - 52) (- 1074)"
  have x0: "x \<noteq> 0" using False by (simp add: x_def)
  have x1: "1 \<le> \<bar>x\<bar>" using False unfolding x_def by (simp flip: of_int_abs)
  have "real_of_int \<bar>i\<bar> < real_of_int (2 ^ 53)" using assms by (simp only: of_int_less_iff)
  then have x53: "\<bar>x\<bar> < pow2 53" by (simp add: x_def pow2_def)
  have pos: "0 < \<bar>x\<bar>" using x0 by simp
  note b = floor_log2_bounds [OF pos]
  have "\<not> 53 \<le> floor_log2 \<bar>x\<bar>"
  proof
    assume "53 \<le> floor_log2 \<bar>x\<bar>"
    then have "pow2 53 \<le> pow2 (floor_log2 \<bar>x\<bar>)" by (rule pow2_mono)
    then show False using b x53 by linarith
  qed
  then have e0: "e \<le> 0" by (simp add: e_def)
  define k where "k = i * 2 ^ nat (- e)"
  have "pow2 e = 1 / 2 ^ nat (- e)" using pow2_neg_nat [of "nat (- e)"] e0 by simp
  then have xk: "of_int k * pow2 e = x" by (simp add: k_def x_def)
  have fin: "\<bar>x\<bar> < pow2 1024"
    using x53 pow2_strict_mono [of 53 1024] by simp
  have "\<exists>r. round_double x = Fin r \<and> of_int k * pow2 e \<le> r \<and> r \<le> of_int k * pow2 e"
    unfolding e_def
    by (rule round_double_between [OF x0]) (use fin xk in \<open>simp_all add: e_def [symmetric]\<close>)
  then show ?thesis using xk by (auto simp: x_def)
qed

lemma float_sub_int:
  assumes "\<bar>i\<bar> < 2 ^ 52" "\<bar>j\<bar> < 2 ^ 52"
  shows "float_sub (Fin (of_int i)) (Fin (of_int j)) = Fin (of_int (i - j))"
proof -
  have "\<bar>i - j\<bar> < 2 ^ 53" using assms by simp
  from round_double_int [OF this] show ?thesis by (simp add: float_sub_def)
qed

lemma py_float_int:
  assumes "\<bar>i\<bar> < 2 ^ 52"
  shows "py_float (PyInt i) = Inr (Fin (of_int i))"
proof -
  have "\<bar>i\<bar> < 2 ^ 53" using assms by simp
  from round_double_int [OF this] show ?thesis by simp
qed

lemma dict_get_dict_set:
  "dict_get (dict_set k v d) k' = (if k' = k then Some v else dict_get d k')"
  by (induction d) (auto simp: dict_get_def)

lemma keys_dict_set:
  "dict_get d k = Some v' \<Longrightarrow> map fst (dict_set k v d) = map fst d"
  by (induction d) (auto simp: dict_get_def split: if_splits)

text \<open>
  C4. The claim that the press angle is clamped at 0 does not hold: a position with servo
  \<open>'5'\<close> at 5 degrees pressed by 10 degrees gets the press angle \<open>-5.0\<close>, and the press
  move is sent with the raw position 445 for it.
\<close>

theorem press_angles_negative_counterexample:
  "press_angles [(KStr ''4'', PyInt 70), (KStr ''5'', PyInt 5)] (PyInt 10)
     = Inr [(KStr ''4'', PyInt 70), (KStr ''5'', PyFloat (Fin (- 5)))]
   \<and> clamped_angle 5 10 = 0
   \<and> press_button ''b'' (PyInt 10) 500 False loaded_robot
     = (Inr True,
        loaded_robot\<lparr>trace :=
          [Executing ''b'',
           Write (hid_report [0x55, 0x55, 11, 3, 2, 0xE8, 3, 4, 0xFD, 4, 5, 0x2B, 2]),
           Sleep lit_0_05, Sleep lit_1_5,
           Write (hid_report [0x55, 0x55, 11, 3, 2, 0xF4, 1, 4, 0xFD, 4, 5, 0xBD, 1]),
           Sleep lit_0_05, Sleep (Fin 1),
           Completed ''b'']\<rparr>)"
  by (simp add: press_button_def loaded_robot_def fresh_robot_def example_store_def
        clamped_angle_def run_eval)

text \<open>
  C4, as amended. The press angle map is the hover angle map with only the entry of the
  string key \<open>'5'\<close> changed, to \<open>float(angle) - press_depth\<close>; the keys and the other
  entries stay as they are. Nothing clamps the difference: for integers below \<open>2\<^sup>5\<^sup>2\<close> in
  magnitude it is exactly \<open>angle - depth\<close>, negative when the depth exceeds the angle, and
  that is not an error.
\<close>

theorem press_angles_unclamped:
  "(dict_get position servo_to_press = Some a \<and> py_float a = Inr x
      \<and> py_float press_depth = Inr depth \<longrightarrow>
      press_angles position press_depth
        = Inr (dict_set servo_to_press (PyFloat (float_sub x depth)) position)
      \<and> map fst (dict_set servo_to_press (PyFloat (float_sub x depth)) position)
          = map fst position
      \<and> (\<forall>k. k \<noteq> servo_to_press \<longrightarrow>
            dict_get (dict_set servo_to_press (PyFloat (float_sub x depth)) position) k
              = dict_get position k))
   \<and> (\<bar>i\<bar> < 2 ^ 52 \<and> \<bar>j\<bar> < 2 ^ 52 \<longrightarrow>
        py_float (PyInt i) = Inr (Fin (of_int i))
        \<and> py_float (PyInt j) = Inr (Fin (of_int j))
        \<and> float_sub (Fin (of_int i)) (Fin (of_int j)) = Fin (of_int (i - j)))"
  by (auto simp: press_angles_def dict_get_dict_set keys_dict_set float_sub_int py_float_int
        simp del: py_float.simps)

theorem press_angles_unclamped_witness:
  "dict_get [(KStr ''4'', PyInt 70), (KStr ''5'', PyInt 5)] servo_to_press = Some (PyInt 5)
   \<and> py_float (PyInt 5) = Inr (Fin 5) \<and> py_float (PyInt 10) = Inr (Fin 10)
   \<and> float_sub (Fin 5) (Fin 10) = Fin (- 5)
   \<and> press_angles [(KStr ''4'', PyInt 70), (KStr ''5'', PyInt 5)] (PyInt 10)
       = Inr [(KStr ''4'', PyInt 70), (KStr ''5'', PyFloat (Fin (- 5)))]"
proof -
  let ?position = "[(KStr ''4'', PyInt 70), (KStr ''5'', PyInt 5)]"
  note inst = press_angles_unclamped [of ?position "PyInt 5" "Fin 5" "PyInt 10" "Fin 10" 5 10]
  have g: "dict_get ?position servo_to_press = Some (PyInt 5)"
    by (simp add: dict_get_def servo_to_press_def)
  have s: "dict_set servo_to_press v ?position = [(KStr ''4'', PyInt 70), (KStr ''5'', v)]" for v
    by (simp add: servo_to_press_def)
  have b: "\<bar>5 :: int\<bar> < 2 ^ 52 \<and> \<bar>10 :: int\<bar> < 2 ^ 52" by simp
  from inst b have f: "py_float (PyInt 5) = Inr (Fin 5)" "py_float (PyInt 10) = Inr (Fin 10)"
    "float_sub (Fin 5) (Fin 10) = Fin (- 5)"
    by (simp_all del: py_float.simps)
  from inst g f have "press_angles ?position (PyInt 10)
      = Inr (dict_set servo_to_press (PyFloat (float_sub (Fin 5) (Fin 10))) ?position)"
    by blast
  then show ?thesis using g f by (simp only: s)
qed

lemma int_keyed_no_five: "int_keyed position \<Longrightarrow> dict_get position servo_to_press = None"
  by (induction position) (auto simp: int_keyed_def dict_get_def servo_to_press_def elim: is_int_key.elims)

lemma press_angles_missing:
  "dict_get position servo_to_press = None \<Longrightarrow> press_angles position press_depth = Inl TypeError"
  by (simp add: press_angles_def)

lemma move_to_angles_outcome:
  "(\<exists>e. servo_moves angles time_ms = Inl e \<and> move_to_angles angles time_ms s = (Inl e, s))
   \<or> (\<exists>b s'. move_to_angles angles time_ms s = (Inr b, s'))"
proof (cases "servo_moves angles time_ms")
  case (Inl e)
  then show ?thesis by (simp add: move_to_angles_def raise_def)
next
  case (Inr ms)
  then show ?thesis using send_packet_returns [of "build_servo_packet ms" s]
    by (simp add: move_to_angles_def)
qed

lemma press_button_found:
  "dict_get (saved_positions s) position_name = Some position \<Longrightarrow>
   press_button position_name press_depth press_time return_home s =
     bind_prog (move_to_angles position 1000) (\<lambda>_.
       bind_prog (emit (Sleep lit_1_5)) (\<lambda>_.
         case press_angles position press_depth of
           Inl e \<Rightarrow> raise e
         | Inr press_position \<Rightarrow>
             bind_prog (move_to_angles press_position press_time) (\<lambda>_.
             case hold_seconds press_time of
               Inl e \<Rightarrow> raise e
             | Inr secs \<Rightarrow>
                 bind_prog (py_sleep secs) (\<lambda>_.
                 bind_prog (if return_home
                            then bind_prog (go_home 1000) (\<lambda>_. py_sleep (Fin 1))
                            else ret ()) (\<lambda>_.
                 bind_prog (emit (Completed position_name)) (\<lambda>_. ret True))))))
       (s\<lparr>trace := trace s @ [Executing position_name]\<rparr>)"
  by (simp add: press_button_def bind_emit py_sleep_hover)

lemma press_button_not_found:
  "dict_get (saved_positions s) position_name = None \<Longrightarrow>
   press_button position_name press_depth press_time return_home s =
     (Inr False, s\<lparr>trace := trace s @ [Executing position_name, Not_found position_name]\<rparr>)"
  by (simp add: press_button_def bind_emit ret_def)

lemma press_button_no_five:
  assumes "dict_get (saved_positions s) position_name = Some position"
    and "dict_get position servo_to_press = None"
  shows "\<exists>e s'. press_button position_name press_depth press_time return_home s = (Inl e, s')"
proof -
  let ?s1 = "s\<lparr>trace := trace s @ [Executing position_name]\<rparr>"
  from move_to_angles_outcome [of position 1000 ?s1]
  show ?thesis
  proof (elim disjE exE conjE)
    fix e assume "move_to_angles position 1000 ?s1 = (Inl e, ?s1)"
    then show ?thesis
      by (simp add: press_button_found [OF assms(1)] bind_result)
  next
    fix b s' assume "move_to_angles position 1000 ?s1 = (Inr b, s')"
    then show ?thesis
      by (simp add: press_button_found [OF assms(1)] bind_result bind_emit
            press_angles_missing [OF assms(2)] raise_def)
  qed
qed

lemma press_button_hover_then_raise:
  assumes "dict_get (saved_positions s) position_name = Some position"
    and "dict_get position servo_to_press = None"
    and "servo_moves position 1000 = Inr servos_data"
    and "device s = Some accepts"
    and "accepts (hid_report (build_servo_packet servos_data))"
  shows "press_button position_name press_depth press_time return_home s =
           (Inl TypeError,
            s\<lparr>trace := trace s @ [Executing position_name,
                                   Write (hid_report (build_servo_packet servos_data)),
                                   Sleep lit_0_05, Sleep lit_1_5]\<rparr>)"
proof -
  let ?s1 = "s\<lparr>trace := trace s @ [Executing position_name]\<rparr>"
  have dev: "device ?s1 = Some accepts" using assms(4) by simp
  have "move_to_angles position 1000 ?s1 =
          (Inr True, ?s1\<lparr>trace := trace ?s1 @ [Write (hid_report (build_servo_packet servos_data)),
                                                 Sleep lit_0_05]\<rparr>)"
    using send_packet_accepted [OF dev assms(5)] by (simp add: move_to_angles_def assms(3))
  then show ?thesis
    by (simp add: press_button_found [OF assms(1)] bind_result bind_emit
          press_angles_missing [OF assms(2)] raise_def)
qed

lemma positions_eval_more:
  "angle_to_position (PyInt 80) = Inr 1388"
  "angle_to_position (PyInt 180) = Inr 2500"
  "angle_to_position (PyInt 130) = Inr 1944"
  "angle_to_position (PyFloat (Fin (- 1))) = Inr 489"
  by (simp_all add: angle_to_position_def float_eval)

lemma press_angles_eval_more:
  "press_angles [(KStr ''4'', PyInt 70), (KStr ''5'', PyInt 5)] (PyInt 6)
     = Inr [(KStr ''4'', PyInt 70), (KStr ''5'', PyFloat (Fin (- 1)))]"
  by (simp_all add: press_angles_def dict_get_def servo_to_press_def float_sub_def float_eval)

lemma delay_seconds_1000: "delay_seconds 1000 = Inr (Fin 1)"
  by (simp add: delay_seconds_def float_eval)

lemma run_step_bare_name:
  "run_step (Name name) = run_step (Options name (Some (PyInt 6)) (Some 500))"
  by (simp add: run_step_def default_press_depth_def default_press_time_def)

lemma run_repeats_bare_name:
  "run_repeats n (Name name # rest) delay
     = run_repeats n (Options name (Some (PyInt 6)) (Some 500) # rest) delay"
  by (induction n) (simp_all add: run_step_bare_name)

text \<open>
  C6. A step that is a bare position name is not pressed by the 10 degrees of the claim:
  \<open>run_sequence\<close> presses it by 6 degrees, the default of \<open>press_button\<close>, while a
  record without a depth is pressed by 10 degrees. On a position with servo \<open>'5'\<close> at 90
  degrees, \<open>run_sequence(["a"])\<close> sends the press move of 84 degrees (raw position 1433)
  and \<open>run_sequence([{"button": "a"}])\<close> that of 80 degrees (raw position 1388); the hold
  time is 500 ms in both. In every sequence a bare name runs as the record with depth 6
  and time 500.
\<close>

theorem run_sequence_bare_name_depth:
  "run_sequence [Name ''a''] 1 1000 True loaded_robot
     = (Inr (),
        loaded_robot\<lparr>trace :=
          [Executing ''a'',
           Write (hid_report [0x55, 0x55, 8, 3, 1, 0xE8, 3, 5, 0xDC, 5]), Sleep lit_0_05, Sleep lit_1_5,
           Write (hid_report [0x55, 0x55, 8, 3, 1, 0xF4, 1, 5, 0x99, 5]), Sleep lit_0_05, Sleep (Fin 1),
           Completed ''a'', Sleep (Fin 1),
           Returning_home, Write (hid_report home_frame), Sleep lit_0_05, Sleep (Fin 1)]\<rparr>)
   \<and> run_sequence [Options ''a'' None None] 1 1000 True loaded_robot
     = (Inr (),
        loaded_robot\<lparr>trace :=
          [Executing ''a'',
           Write (hid_report [0x55, 0x55, 8, 3, 1, 0xE8, 3, 5, 0xDC, 5]), Sleep lit_0_05, Sleep lit_1_5,
           Write (hid_report [0x55, 0x55, 8, 3, 1, 0xF4, 1, 5, 0x6C, 5]), Sleep lit_0_05, Sleep (Fin 1),
           Completed ''a'', Sleep (Fin 1),
           Returning_home, Write (hid_report home_frame), Sleep lit_0_05, Sleep (Fin 1)]\<rparr>)
   \<and> run_sequence (Name name # rest) repeat delay return_home
     = run_sequence (Options name (Some (PyInt 6)) (Some 500) # rest) repeat delay return_home"
proof (intro conjI)
  show "run_sequence (Name name # rest) repeat delay return_home
     = run_sequence (Options name (Some (PyInt 6)) (Some 500) # rest) repeat delay return_home"
    by (simp add: run_sequence_def run_repeats_bare_name)
qed (simp_all add: run_sequence_def run_step_def default_press_depth_def default_press_time_def
       press_button_def go_home_def loaded_robot_def fresh_robot_def example_store_def
       default_home_def home_frame_def run_eval positions_eval_more delay_seconds_1000
       emit_def)

lemma adds_ret: "adds (ret x) []"
  by (simp add: adds_def ret_def marks_of_def)

lemma adds_raise: "adds (raise e) marks"
  by (simp add: adds_def raise_def)

lemma adds_emit: "adds (emit ev) (if is_mark ev then [ev] else [])"
  by (auto simp: adds_def emit_def marks_of_def)

lemma adds_bind:
  assumes "adds m marks" and "\<And>x. adds (f x) marks'"
  shows "adds (bind_prog m f) (marks @ marks')"
  unfolding adds_def
proof (intro allI impI)
  fix s y s'
  assume r: "bind_prog m f s = (Inr y, s')"
  obtain r1 s1 where m: "m s = (r1, s1)" by (cases "m s")
  show "\<exists>tr. trace s' = trace s @ tr \<and> marks_of tr = marks @ marks'"
  proof (cases r1)
    case (Inl e)
    then show ?thesis using r m by (simp add: bind_prog_def)
  next
    case (Inr x)
    then have f: "f x s1 = (Inr y, s')" using r m by (simp add: bind_prog_def)
    from assms(1) m Inr obtain tr1 where t1: "trace s1 = trace s @ tr1" "marks_of tr1 = marks"
      unfolding adds_def by blast
    from assms(2) [of x] f obtain tr2 where t2: "trace s' = trace s1 @ tr2" "marks_of tr2 = marks'"
      unfolding adds_def by blast
    show ?thesis using t1 t2 by (intro exI [of _ "tr1 @ tr2"]) (simp add: marks_of_def)
  qed
qed

lemma adds_bind_quiet:
  "adds m [] \<Longrightarrow> (\<And>x. adds (f x) marks) \<Longrightarrow> adds (bind_prog m f) marks"
  using adds_bind [of m "[]" f marks] by simp

lemma adds_state: "(\<And>s0. adds (f s0) marks) \<Longrightarrow> adds (\<lambda>s. f s s) marks"
  unfolding adds_def by blast

lemma adds_py_sleep: "adds (py_sleep secs) []"
proof (cases secs)
  case (Fin x)
  show ?thesis
  proof (cases "float_mul_pos secs 1000000000")
    case (Fin d)
    have e: "adds (emit (Sleep secs)) []" using adds_emit [of "Sleep secs"] by simp
    show ?thesis using Fin \<open>secs = Fin x\<close> e
      by (simp add: py_sleep_def adds_raise del: float_mul_pos.simps)
  qed (simp_all add: py_sleep_def adds_raise \<open>secs = Fin x\<close> del: float_mul_pos.simps)
qed (simp_all add: py_sleep_def adds_raise)

lemma adds_send_packet: "adds (send_packet packet) []"
  unfolding adds_def
proof (intro allI impI)
  fix s x s'
  assume r: "send_packet packet s = (Inr x, s')"
  show "\<exists>tr. trace s' = trace s @ tr \<and> marks_of tr = []"
  proof (cases "device s")
    case None
    then show ?thesis using r by (simp add: send_packet_unconnected marks_of_def)
  next
    case (Some accepts)
    then show ?thesis using r
      by (cases "accepts (hid_report packet)")
         (auto simp: send_packet_accepted send_packet_refused marks_of_def)
  qed
qed

lemma adds_move_to_angles: "adds (move_to_angles angles time_ms) []"
  by (cases "servo_moves angles time_ms")
     (simp_all add: move_to_angles_def adds_raise adds_send_packet)

lemma adds_bind_marked:
  "adds m marks \<Longrightarrow> (\<And>x. adds (f x) []) \<Longrightarrow> adds (bind_prog m f) marks"
  using adds_bind [of m marks f "[]"] by simp

lemma adds_go_home: "adds (go_home time_ms) [Returning_home]"
proof -
  have h: "adds (\<lambda>s. move_to_angles (home_position s) time_ms s) []"
    by (rule adds_state [of "\<lambda>s0. move_to_angles (home_position s0) time_ms"])
       (rule adds_move_to_angles)
  have e: "adds (emit Returning_home) [Returning_home]"
    using adds_emit [of Returning_home] by simp
  show ?thesis unfolding go_home_def by (rule adds_bind_marked [OF e]) (rule h)
qed

lemma adds_case_sum:
  "(\<And>e. adds (f e) marks) \<Longrightarrow> (\<And>y. adds (g y) marks) \<Longrightarrow> adds (case_sum f g v) marks"
  by (cases v) simp_all

lemma adds_press_button_no_home:
  "adds (press_button name press_depth press_time False) [Executing name]"
proof -
  have tail: "adds (bind_prog (py_sleep secs) (\<lambda>_.
                 bind_prog (if False
                            then bind_prog (go_home 1000) (\<lambda>_. py_sleep (Fin 1))
                            else ret ()) (\<lambda>_.
                 bind_prog (emit (Completed name)) (\<lambda>_. ret True)))) []" for secs
    using adds_emit [of "Completed name"]
    by (intro adds_bind_quiet adds_py_sleep) (simp_all add: adds_ret)
  have found: "adds (bind_prog (move_to_angles position 1000) (\<lambda>_.
           bind_prog (py_sleep lit_1_5) (\<lambda>_.
           case press_angles position press_depth of
             Inl e \<Rightarrow> raise e
           | Inr press_position \<Rightarrow>
               bind_prog (move_to_angles press_position press_time) (\<lambda>_.
               case hold_seconds press_time of
                 Inl e \<Rightarrow> raise e
               | Inr secs \<Rightarrow>
                   bind_prog (py_sleep secs) (\<lambda>_.
                   bind_prog (if False
                              then bind_prog (go_home 1000) (\<lambda>_. py_sleep (Fin 1))
                              else ret ()) (\<lambda>_.
                   bind_prog (emit (Completed name)) (\<lambda>_. ret True))))))) []" for position
    by (intro adds_bind_quiet adds_move_to_angles adds_py_sleep adds_case_sum adds_raise tail)
  have missing: "adds (bind_prog (emit (Not_found name)) (\<lambda>_. ret False)) []"
    using adds_emit [of "Not_found name"] by (intro adds_bind_quiet) (simp_all add: adds_ret)
  have body: "adds (\<lambda>s. case dict_get (saved_positions s) name of
         None \<Rightarrow> bind_prog (emit (Not_found name)) (\<lambda>_. ret False) s
       | Some position \<Rightarrow>
           bind_prog (move_to_angles position 1000) (\<lambda>_.
           bind_prog (py_sleep lit_1_5) (\<lambda>_.
           case press_angles position press_depth of
             Inl e \<Rightarrow> raise e
           | Inr press_position \<Rightarrow>
               bind_prog (move_to_angles press_position press_time) (\<lambda>_.
               case hold_seconds press_time of
                 Inl e \<Rightarrow> raise e
               | Inr secs \<Rightarrow>
                   bind_prog (py_sleep secs) (\<lambda>_.
                   bind_prog (if False
                              then bind_prog (go_home 1000) (\<lambda>_. py_sleep (Fin 1))
                              else ret ()) (\<lambda>_.
                   bind_prog (emit (Completed name)) (\<lambda>_. ret True)))))) s) []"
    unfolding adds_def
  proof (intro allI impI)
    fix s x s'
    assume r: "(case dict_get (saved_positions s) name of
         None \<Rightarrow> bind_prog (emit (Not_found name)) (\<lambda>_. ret False) s
       | Some position \<Rightarrow>
           bind_prog (move_to_angles position 1000) (\<lambda>_.
           bind_prog (py_sleep lit_1_5) (\<lambda>_.
           case press_angles position press_depth of
             Inl e \<Rightarrow> raise e
           | Inr press_position \<Rightarrow>
               bind_prog (move_to_angles press_position press_time) (\<lambda>_.
               case hold_seconds press_time of
                 Inl e \<Rightarrow> raise e
               | Inr secs \<Rightarrow>
                   bind_prog (py_sleep secs) (\<lambda>_.
                   bind_prog (if False
                              then bind_prog (go_home 1000) (\<lambda>_. py_sleep (Fin 1))
                              else ret ()) (\<lambda>_.
                   bind_prog (emit (Completed name)) (\<lambda>_. ret True)))))) s) = (Inr x, s')"
    show "\<exists>tr. trace s' = trace s @ tr \<and> marks_of tr = []"
    proof (cases "dict_get (saved_positions s) name")
      case None
      then show ?thesis using r missing unfolding adds_def by simp
    next
      case (Some position)
      then show ?thesis using r found [of position] unfolding adds_def by simp
    qed
  qed
  have e: "adds (emit (Executing name)) [Executing name]"
    using adds_emit [of "Executing name"] by simp
  show ?thesis
    unfolding press_button_def by (rule adds_bind_marked [OF e]) (rule body)
qed


lemma bind_assoc:
  "bind_prog (bind_prog m f) g = bind_prog m (\<lambda>x. bind_prog (f x) g)"
  by (rule ext) (auto simp: bind_prog_def split: prod.splits sum.splits)

lemma bind_ret_left: "bind_prog (ret x) f = f x"
  by (rule ext) (simp add: bind_prog_def ret_def)

lemma run_sequence_unrolled:
  "run_sequence [Name a, Name b] 2 500 return_home =
     bind_prog (press_button a (PyInt 6) 500 False) (\<lambda>_.
     bind_prog (py_sleep lit_0_5) (\<lambda>_.
     bind_prog (press_button b (PyInt 6) 500 False) (\<lambda>_.
     bind_prog (py_sleep lit_0_5) (\<lambda>_.
     bind_prog (press_button a (PyInt 6) 500 False) (\<lambda>_.
     bind_prog (py_sleep lit_0_5) (\<lambda>_.
     bind_prog (press_button b (PyInt 6) 500 False) (\<lambda>_.
     bind_prog (py_sleep lit_0_5) (\<lambda>_.
     if return_home then bind_prog (go_home 1000) (\<lambda>_. py_sleep (Fin 1)) else ret ()))))))))"
  by (simp add: run_sequence_def numeral_2_eq_2 run_step_def default_press_depth_def
        default_press_time_def delay_seconds_500 bind_assoc bind_ret_left)

lemma adds_home_tail:
  "adds (if return_home then bind_prog (go_home 1000) (\<lambda>_. py_sleep (Fin 1)) else ret ())
     (if return_home then [Returning_home] else [])"
  by (simp add: adds_ret adds_bind_marked [OF adds_go_home] adds_py_sleep)

lemma adds_press_then:
  "adds rest marks \<Longrightarrow>
   adds (bind_prog (press_button name press_depth press_time False) (\<lambda>_.
         bind_prog (py_sleep secs) (\<lambda>_. rest))) (Executing name # marks)"
  using adds_bind [OF adds_press_button_no_home, of "\<lambda>_. bind_prog (py_sleep secs) (\<lambda>_. rest)"
          marks name press_depth press_time]
  by (simp add: adds_bind_quiet adds_py_sleep)

text \<open>
  C8. \<open>run_sequence(["a", "b"], repeat=2, delay=500)\<close> is four presses, of a, b, a and b in
  this order, each with \<open>return_home=False\<close> and followed by the delay, and then one return
  home if it was asked for. When it returns, the trace has gained exactly four press
  starts in this order and, after them, one return home when asked for and none otherwise.
\<close>

theorem run_sequence_two_by_two:
  "run_sequence [Name a, Name b] 2 500 return_home =
     bind_prog (press_button a (PyInt 6) 500 False) (\<lambda>_.
     bind_prog (py_sleep lit_0_5) (\<lambda>_.
     bind_prog (press_button b (PyInt 6) 500 False) (\<lambda>_.
     bind_prog (py_sleep lit_0_5) (\<lambda>_.
     bind_prog (press_button a (PyInt 6) 500 False) (\<lambda>_.
     bind_prog (py_sleep lit_0_5) (\<lambda>_.
     bind_prog (press_button b (PyInt 6) 500 False) (\<lambda>_.
     bind_prog (py_sleep lit_0_5) (\<lambda>_.
     if return_home then bind_prog (go_home 1000) (\<lambda>_. py_sleep (Fin 1)) else ret ()))))))))
   \<and> (run_sequence [Name a, Name b] 2 500 return_home s = (Inr (), s') \<longrightarrow>
        (\<exists>tr. trace s' = trace s @ tr
            \<and> marks_of tr = [Executing a, Executing b, Executing a, Executing b]
                             @ (if return_home then [Returning_home] else [])))"
proof (intro conjI impI)
  show "run_sequence [Name a, Name b] 2 500 return_home =
     bind_prog (press_button a (PyInt 6) 500 False) (\<lambda>_.
     bind_prog (py_sleep lit_0_5) (\<lambda>_.
     bind_prog (press_button b (PyInt 6) 500 False) (\<lambda>_.
     bind_prog (py_sleep lit_0_5) (\<lambda>_.
     bind_prog (press_button a (PyInt 6) 500 False) (\<lambda>_.
     bind_prog (py_sleep lit_0_5) (\<lambda>_.
     bind_prog (press_button b (PyInt 6) 500 False) (\<lambda>_.
     bind_prog (py_sleep lit_0_5) (\<lambda>_.
     if return_home then bind_prog (go_home 1000) (\<lambda>_. py_sleep (Fin 1)) else ret ()))))))))"
    by (rule run_sequence_unrolled)
next
  assume r: "run_sequence [Name a, Name b] 2 500 return_home s = (Inr (), s')"
  have "adds (run_sequence [Name a, Name b] 2 500 return_home)
          (Executing a # Executing b # Executing a # Executing b
             # (if return_home then [Returning_home] else []))"
    unfolding run_sequence_unrolled
    by (intro adds_press_then adds_home_tail)
  then show "\<exists>tr. trace s' = trace s @ tr
            \<and> marks_of tr = [Executing a, Executing b, Executing a, Executing b]
                             @ (if return_home then [Returning_home] else [])"
    using r unfolding adds_def by simp
qed

theorem run_sequence_two_by_two_witness:
  "run_sequence [Name ''a'', Name ''b''] 2 500 True loaded_robot
     = (Inr (),
        loaded_robot\<lparr>trace :=
          [Executing ''a'',
           Write (hid_report [0x55, 0x55, 8, 3, 1, 0xE8, 3, 5, 0xDC, 5]), Sleep lit_0_05, Sleep lit_1_5,
           Write (hid_report [0x55, 0x55, 8, 3, 1, 0xF4, 1, 5, 0x99, 5]), Sleep lit_0_05, Sleep (Fin 1),
           Completed ''a'', Sleep lit_0_5,
           Executing ''b'',
           Write (hid_report [0x55, 0x55, 11, 3, 2, 0xE8, 3, 4, 0xFD, 4, 5, 0x2B, 2]),
           Sleep lit_0_05, Sleep lit_1_5,
           Write (hid_report [0x55, 0x55, 11, 3, 2, 0xF4, 1, 4, 0xFD, 4, 5, 0xE9, 1]),
           Sleep lit_0_05, Sleep (Fin 1),
           Completed ''b'', Sleep lit_0_5,
           Executing ''a'',
           Write (hid_report [0x55, 0x55, 8, 3, 1, 0xE8, 3, 5, 0xDC, 5]), Sleep lit_0_05, Sleep lit_1_5,
           Write (hid_report [0x55, 0x55, 8, 3, 1, 0xF4, 1, 5, 0x99, 5]), Sleep lit_0_05, Sleep (Fin 1),
           Completed ''a'', Sleep lit_0_5,
           Executing ''b'',
           Write (hid_report [0x55, 0x55, 11, 3, 2, 0xE8, 3, 4, 0xFD, 4, 5, 0x2B, 2]),
           Sleep lit_0_05, Sleep lit_1_5,
           Write (hid_report [0x55, 0x55, 11, 3, 2, 0xF4, 1, 4, 0xFD, 4, 5, 0xE9, 1]),
           Sleep lit_0_05, Sleep (Fin 1),
           Completed ''b'', Sleep lit_0_5,
           Returning_home,
           Write (hid_report [0x55, 0x55, 23, 3, 6, 0xE8, 3, 1, 0x6C, 5, 2, 0xDC, 5, 3, 0xC4, 9,
                              4, 0x98, 7, 5, 0xDC, 5, 6, 0xFD, 4]),
           Sleep lit_0_05, Sleep (Fin 1)]\<rparr>)"
proof -
  note unrolled = run_sequence_two_by_two [THEN conjunct1, of "''a''" "''b''" True]
  show ?thesis
    by (simp add: unrolled press_button_def go_home_def loaded_robot_def fresh_robot_def
          example_store_def default_home_def run_eval positions_eval_more
          press_angles_eval_more emit_def)
qed

section \<open>Properties of the position store\<close>

lemma dict_set_fresh: "k \<notin> fst ` set d \<Longrightarrow> dict_set k v d = d @ [(k, v)]"
  by (induction d) auto

lemma dict_loop_distinct:
  "distinct (map fst (acc @ ps)) \<Longrightarrow>
   foldl (\<lambda>d (k, v). dict_set k v d) acc ps = acc @ ps"
proof (induction ps arbitrary: acc)
  case Nil
  then show ?case by simp
next
  case (Cons p ps)
  obtain k v where p: "p = (k, v)" by (cases p)
  have fresh: "k \<notin> fst ` set acc" using Cons.prems by (auto simp: p)
  have "distinct (map fst ((acc @ [(k, v)]) @ ps))" using Cons.prems by (simp add: p)
  from Cons.IH [OF this] show ?case by (simp add: p dict_set_fresh [OF fresh])
qed

lemma dict_of_pairs_distinct: "distinct (map fst ps) \<Longrightarrow> dict_of_pairs ps = ps"
  using dict_loop_distinct [of "[]" ps] by (simp add: dict_of_pairs_def)

lemma keys_dict_set_any:
  "map fst (dict_set k v d) = (if k \<in> fst ` set d then map fst d else map fst d @ [k])"
  by (induction d) force+

lemma dict_loop_keys:
  "distinct (map fst acc) \<Longrightarrow>
   distinct (map fst (foldl (\<lambda>d (k, v). dict_set k v d) acc ps))
   \<and> set (map fst (foldl (\<lambda>d (k, v). dict_set k v d) acc ps)) = set (map fst acc) \<union> set (map fst ps)"
proof (induction ps arbitrary: acc)
  case Nil
  then show ?case by simp
next
  case (Cons p ps)
  obtain k v where p: "p = (k, v)" by (cases p)
  have d: "distinct (map fst (dict_set k v acc))"
    using Cons.prems by (auto simp: keys_dict_set_any)
  have s: "set (map fst (dict_set k v acc)) = insert k (set (map fst acc))"
    by (auto simp: keys_dict_set_any)
  from Cons.IH [OF d] s show ?case by (auto simp: p)
qed

lemma dict_of_pairs_keys:
  "distinct (map fst (dict_of_pairs ps))" "set (map fst (dict_of_pairs ps)) = set (map fst ps)"
  using dict_loop_keys [of "[]" ps] by (simp_all add: dict_of_pairs_def)

lemma dict_set_values:
  "set (dict_set k v d) \<subseteq> insert (k, v) (set d)"
  by (induction d) (auto split: if_splits)

lemma dict_loop_values:
  "set (foldl (\<lambda>d (k, v). dict_set k v d) acc ps) \<subseteq> set acc \<union> set ps"
proof (induction ps arbitrary: acc)
  case Nil
  then show ?case by simp
next
  case (Cons p ps)
  obtain k v where p: "p = (k, v)" by (cases p)
  show ?case using Cons.IH [of "dict_set k v acc"] dict_set_values [of k v acc]
    by (auto simp: p)
qed

lemma dict_of_pairs_values: "set (dict_of_pairs ps) \<subseteq> set ps"
  using dict_loop_values [of "[]" ps] by (simp add: dict_of_pairs_def)

lemma json_load_well_formed: "well_formed_store (json_load doc)"
proof -
  have "list_all (\<lambda>(name, angles). distinct (map fst angles)) (json_load doc)"
    unfolding list_all_iff json_load_def
    using dict_of_pairs_values dict_of_pairs_keys(1) by fastforce
  then show ?thesis
    by (simp add: well_formed_store_def json_load_def dict_of_pairs_keys(1))
qed

lemma str_keys_loaded:
  "list_all (\<lambda>(k, v). is_str_key k) (dict_of_pairs (map (\<lambda>(k, v). (KStr k, v)) members))"
proof -
  have "set (dict_of_pairs (map (\<lambda>(k, v). (KStr k, v)) members))
          \<subseteq> set (map (\<lambda>(k, v). (KStr k, v)) members)"
    by (rule dict_of_pairs_values)
  then show ?thesis unfolding list_all_iff by fastforce
qed

lemma json_load_string_keyed: "string_keyed (json_load doc)"
proof -
  have "set (json_load doc)
          \<subseteq> set (map (\<lambda>(name, members).
                          (name, dict_of_pairs (map (\<lambda>(k, v). (KStr k, v)) members))) doc)"
    unfolding json_load_def by (rule dict_of_pairs_values)
  then show ?thesis
    unfolding string_keyed_def list_all_iff using str_keys_loaded
    by (fastforce simp: list_all_iff)
qed

lemma reload_angles:
  assumes "distinct (map fst angles)" "list_all (\<lambda>(k, v). is_str_key k) angles"
  shows "dict_of_pairs (map (\<lambda>(k, v). (KStr k, v)) (map (\<lambda>(k, v). (key_to_json k, v)) angles))
           = angles"
proof -
  have "map (\<lambda>(k, v). (KStr k, v)) (map (\<lambda>(k, v). (key_to_json k, v)) angles) = angles"
    using assms(2)
  proof (induction angles)
    case Nil
    then show ?case by simp
  next
    case (Cons p ps)
    obtain k v where p: "p = (k, v)" by (cases p)
    then show ?case using Cons by (cases k) (simp_all add: p)
  qed
  then show ?thesis using assms(1) by (simp add: dict_of_pairs_distinct)
qed

lemma json_round_trip:
  assumes "well_formed_store positions" "string_keyed positions"
  shows "json_load (json_dump positions) = positions"
proof -
  have "map (\<lambda>(name, members). (name, dict_of_pairs (map (\<lambda>(k, v). (KStr k, v)) members)))
          (json_dump positions) = positions"
    using assms unfolding well_formed_store_def string_keyed_def json_dump_def
  proof (induction positions)
    case Nil
    then show ?case by simp
  next
    case (Cons p ps)
    obtain name angles where p: "p = (name, angles)" by (cases p)
    have "dict_of_pairs (map (\<lambda>(k, v). (KStr k, v)) (map (\<lambda>(k, v). (key_to_json k, v)) angles))
            = angles"
      using Cons.prems by (intro reload_angles) (simp_all add: p)
    then show ?case using Cons by (simp add: p)
  qed
  then show ?thesis
    using assms(1) by (simp add: json_load_def dict_of_pairs_distinct well_formed_store_def)
qed

lemma str_of_five: "py_str_of_int 5 = ''5''"
  by code_simp

text \<open>
  C7. The claim that saving and loading returns the mapping that was saved does not hold
  for integer servo keys: the position \<open>t\<close>, stored with the key \<open>5\<close>, comes back with
  the key \<open>'5'\<close>.
\<close>

theorem save_load_int_keys_counterexample:
  "saved_positions loaded_robot
     = [(''a'', [(KStr ''5'', PyInt 90)]),
        (''b'', [(KStr ''4'', PyInt 70), (KStr ''5'', PyInt 5)]),
        (''t'', [(KInt 5, PyInt 90)])]
   \<and> load_positions (snd (save_positions loaded_robot))
     = [(''a'', [(KStr ''5'', PyInt 90)]),
        (''b'', [(KStr ''4'', PyInt 70), (KStr ''5'', PyInt 5)]),
        (''t'', [(KStr ''5'', PyInt 90)])]"
  by (simp add: load_positions_def save_positions_def loaded_robot_def example_store_def
        json_load_def json_dump_def dict_of_pairs_def str_of_five)

text \<open>
  C7, as amended. A store whose servo keys are all strings is read back as it was saved:
  the same names, the same keys in the same order and the same numbers. What
  \<open>load_positions\<close> returns is such a store, so saving a loaded store and loading it again
  returns the same mapping.
\<close>

theorem save_load_round_trip:
  "(well_formed_store positions \<and> string_keyed positions \<longrightarrow>
      json_load (json_dump positions) = positions
      \<and> load_positions (snd (save_positions (s\<lparr>saved_positions := positions\<rparr>))) = positions)
   \<and> well_formed_store (json_load doc) \<and> string_keyed (json_load doc)
   \<and> json_load (json_dump (json_load doc)) = json_load doc"
  using json_round_trip json_load_well_formed json_load_string_keyed
  by (simp add: load_positions_def save_positions_def)

theorem save_load_round_trip_witness:
  "well_formed_store [(''a'', [(KStr ''5'', PyInt 90)]),
                      (''b'', [(KStr ''4'', PyInt 70), (KStr ''5'', PyInt 5)])]
   \<and> string_keyed [(''a'', [(KStr ''5'', PyInt 90)]),
                   (''b'', [(KStr ''4'', PyInt 70), (KStr ''5'', PyInt 5)])]
   \<and> json_dump [(''a'', [(KStr ''5'', PyInt 90)]),
                 (''b'', [(KStr ''4'', PyInt 70), (KStr ''5'', PyInt 5)])]
       = [(''a'', [(''5'', PyInt 90)]), (''b'', [(''4'', PyInt 70), (''5'', PyInt 5)])]
   \<and> json_load [(''a'', [(''5'', PyInt 90)]), (''b'', [(''4'', PyInt 70), (''5'', PyInt 5)])]
       = [(''a'', [(KStr ''5'', PyInt 90)]),
          (''b'', [(KStr ''4'', PyInt 70), (KStr ''5'', PyInt 5)])]"
proof -
  let ?m = "[(''a'', [(KStr ''5'', PyInt 90)]),
             (''b'', [(KStr ''4'', PyInt 70), (KStr ''5'', PyInt 5)])]"
  have w: "well_formed_store ?m" by (simp add: well_formed_store_def)
  have k: "string_keyed ?m" by (simp add: string_keyed_def)
  have d: "json_dump ?m
             = [(''a'', [(''5'', PyInt 90)]), (''b'', [(''4'', PyInt 70), (''5'', PyInt 5)])]"
    by (simp add: json_dump_def)
  from save_load_round_trip [of ?m fresh_robot "[]"] w k
  have "json_load (json_dump ?m) = ?m" by blast
  then show ?thesis using w k d by simp
qed


section \<open>Properties of the teaching loop\<close>

lemma positions_eval_teach:
  "angle_to_position (PyInt 178) = Inr 2477"
  "angle_to_position (PyInt 183) = Inr 2533"
  "angle_to_position (PyInt 85) = Inr 1444"
  by (simp_all add: angle_to_position_def float_eval)

lemma strip_plain:
  "strip ''+'' = ''+''" "strip ''-'' = ''-''" "strip ''s'' = ''s''" "strip ''q'' = ''q''"
  "strip '' 2 '' = ''2''"
  by (simp_all add: strip_def py_isspace_def)

lemma teach_iteration_continue:
  assumes "teach_iteration name line angles n s = (Inr (Continue angles' n'), s')"
  shows "\<exists>a. dict_get angles (KInt n) = Some a \<and>
           (angles' = angles
            \<or> (strip line = ''+'' \<and> num_less_int a 180 \<and> n' = n
                \<and> angles' = dict_set (KInt n) (num_add_int a 5) angles)
            \<or> (strip line = ''-'' \<and> num_greater_int a 0 \<and> n' = n
                \<and> angles' = dict_set (KInt n) (num_sub_int a 5) angles))"
proof (cases "dict_get angles (KInt n)")
  case None
  then show ?thesis using assms by (simp add: teach_iteration_def raise_def)
next
  case (Some a)
  show ?thesis
  proof (cases "strip line = ''q'' \<or> strip line = ''s''")
    case True
    then show ?thesis using assms Some
      by (auto simp: teach_iteration_def ret_def bind_prog_def save_positions_def)
  next
    case qs: False
    show ?thesis
    proof (cases "is_substring (strip line) ''123456''")
      case True
      then show ?thesis using assms Some qs
        by (auto simp: teach_iteration_def ret_def raise_def split: sum.splits)
    next
      case sub: False
      show ?thesis
      proof (cases "strip line = ''+''")
        case True
        show ?thesis
        proof (cases "num_less_int a 180")
          case less: True
          let ?new = "dict_set (KInt n) (num_add_int a 5) angles"
          obtain r s1 where m: "move_to_angles ?new 200 s = (r, s1)"
            by (cases "move_to_angles ?new 200 s")
          have "teach_iteration name line angles n s
                  = bind_prog (move_to_angles ?new 200) (\<lambda>_. ret (Continue ?new n)) s"
            using Some True less by (simp add: teach_iteration_def Let_def)
          then show ?thesis using assms m Some True less
            by (cases r) (auto simp: bind_prog_def ret_def)
        next
          case False
          then show ?thesis using assms Some True
            by (simp add: teach_iteration_def ret_def)
        qed
      next
        case plus: False
        show ?thesis
        proof (cases "strip line = ''-''")
          case True
          show ?thesis
          proof (cases "num_greater_int a 0")
            case greater: True
            let ?new = "dict_set (KInt n) (num_sub_int a 5) angles"
            obtain r s1 where m: "move_to_angles ?new 200 s = (r, s1)"
              by (cases "move_to_angles ?new 200 s")
            have "teach_iteration name line angles n s
                    = bind_prog (move_to_angles ?new 200) (\<lambda>_. ret (Continue ?new n)) s"
              using Some True greater by (simp add: teach_iteration_def Let_def)
            then show ?thesis using assms m Some True greater
              by (cases r) (auto simp: bind_prog_def ret_def)
          next
            case False
            then show ?thesis using assms Some True
              by (simp add: teach_iteration_def ret_def)
          qed
        next
          case False
          then show ?thesis using assms Some qs sub plus
            by (simp add: teach_iteration_def ret_def)
        qed
      qed
    qed
  qed
qed

lemma on_step_lookup:
  "step_aligned angles \<Longrightarrow> dict_get angles k = Some a \<Longrightarrow> on_step a"
  by (induction angles) (auto simp: step_aligned_def dict_get_def split: if_splits)

lemma step_aligned_dict_set:
  "step_aligned angles \<Longrightarrow> on_step v \<Longrightarrow> step_aligned (dict_set k v angles)"
  by (induction angles) (auto simp: step_aligned_def)

lemma step_aligned_within: "step_aligned angles \<Longrightarrow> angles_within angles"
proof (induction angles)
  case Nil
  then show ?case by (simp add: angles_within_def)
next
  case (Cons p ps)
  obtain k a where p: "p = (k, a)" by (cases p)
  have "on_step a" using Cons.prems by (simp add: step_aligned_def p)
  then have "num_within 0 180 a" by (cases a) simp_all
  then show ?case using Cons by (simp add: step_aligned_def angles_within_def p)
qed

lemma on_step_up: "on_step a \<Longrightarrow> num_less_int a 180 \<Longrightarrow> on_step (num_add_int a 5)"
proof (cases a)
  case (PyInt i)
  assume "on_step a" "num_less_int a 180"
  then have "0 \<le> i" "i < 180" "i mod 5 = 0" using PyInt by simp_all
  then have "0 \<le> i + 5 \<and> i + 5 \<le> 180 \<and> (i + 5) mod 5 = 0" by presburger
  then show ?thesis using PyInt by simp
qed simp

lemma on_step_down: "on_step a \<Longrightarrow> num_greater_int a 0 \<Longrightarrow> on_step (num_sub_int a 5)"
proof (cases a)
  case (PyInt i)
  assume "on_step a" "num_greater_int a 0"
  then have "0 < i" "i \<le> 180" "i mod 5 = 0" using PyInt by simp_all
  then have "0 \<le> i - 5 \<and> i - 5 \<le> 180 \<and> (i - 5) mod 5 = 0" by presburger
  then show ?thesis using PyInt by simp
qed simp

lemma teach_iteration_aligned:
  assumes "teach_iteration name line angles n s = (Inr (Continue angles' n'), s')"
    and "step_aligned angles"
  shows "step_aligned angles' \<and> map fst angles' = map fst angles"
proof -
  from teach_iteration_continue [OF assms(1)] obtain a where
    a: "dict_get angles (KInt n) = Some a" and
    c: "angles' = angles
        \<or> (strip line = ''+'' \<and> num_less_int a 180 \<and> n' = n
            \<and> angles' = dict_set (KInt n) (num_add_int a 5) angles)
        \<or> (strip line = ''-'' \<and> num_greater_int a 0 \<and> n' = n
            \<and> angles' = dict_set (KInt n) (num_sub_int a 5) angles)" by blast
  have s: "on_step a" using on_step_lookup [OF assms(2) a] .
  show ?thesis using c assms(2) s a
    by (auto simp: step_aligned_dict_set on_step_up on_step_down keys_dict_set)
qed

lemma teach_reach_aligned:
  assumes "teach_reach name s0 st" and "step_aligned (home_position s0)"
  shows "step_aligned (fst st) \<and> map fst (fst st) = map fst (home_position s0)"
  using assms
proof (induction rule: teach_reach.induct)
  case (teach_start b s1)
  then show ?case by simp
next
  case (teach_step angles n s line angles' n' s')
  then show ?case using teach_iteration_aligned [of name line angles n s angles' n' s'] by simp
qed


lemma teach_plus:
  assumes "strip line = ''+''" "dict_get angles (KInt n) = Some a"
  shows "teach_iteration name line angles n s =
           (if num_less_int a 180
            then bind_prog (move_to_angles (dict_set (KInt n) (num_add_int a 5) angles) 200)
                   (\<lambda>_. ret (Continue (dict_set (KInt n) (num_add_int a 5) angles) n)) s
            else (Inr (Continue angles n), s))"
  using assms by (simp add: teach_iteration_def Let_def ret_def)

lemma teach_minus:
  assumes "strip line = ''-''" "dict_get angles (KInt n) = Some a"
  shows "teach_iteration name line angles n s =
           (if num_greater_int a 0
            then bind_prog (move_to_angles (dict_set (KInt n) (num_sub_int a 5) angles) 200)
                   (\<lambda>_. ret (Continue (dict_set (KInt n) (num_sub_int a 5) angles) n)) s
            else (Inr (Continue angles n), s))"
  using assms by (simp add: teach_iteration_def Let_def ret_def)

lemma bind_continue:
  "bind_prog m (\<lambda>_. ret (Continue new n)) s = (Inr (Continue angles' n'), s') \<Longrightarrow>
   angles' = new \<and> n' = n"
  by (cases "m s") (auto simp: bind_prog_def ret_def split: sum.splits)

lemma dict_set_same: "dict_get d k = Some v \<Longrightarrow> dict_set k v d = d"
  by (induction d) (auto simp: dict_get_def split: if_splits)

lemma teach_plus_aligned:
  assumes "step_aligned angles" "dict_get angles (KInt n) = Some (PyInt i)"
    and "teach_iteration name line angles n s = (Inr (Continue angles' n'), s')"
    and "strip line = ''+''"
  shows "angles' = dict_set (KInt n) (PyInt (min 180 (i + 5))) angles \<and> n' = n"
proof -
  have st: "0 \<le> i \<and> i \<le> 180 \<and> i mod 5 = 0"
    using on_step_lookup [OF assms(1,2)] by simp
  show ?thesis
  proof (cases "i < 180")
    case True
    then have "i + 5 \<le> 180" using st by presburger
    then have m: "min 180 (i + 5) = i + 5" by simp
    from assms(3) True show ?thesis
      unfolding teach_plus [OF assms(4,2)] m by (simp add: bind_continue)
  next
    case False
    then have "i = 180" using st by simp
    then show ?thesis
      using assms(3) dict_set_same [OF assms(2)] unfolding teach_plus [OF assms(4,2)] by simp
  qed
qed

lemma teach_minus_aligned:
  assumes "step_aligned angles" "dict_get angles (KInt n) = Some (PyInt i)"
    and "teach_iteration name line angles n s = (Inr (Continue angles' n'), s')"
    and "strip line = ''-''"
  shows "angles' = dict_set (KInt n) (PyInt (max 0 (i - 5))) angles \<and> n' = n"
proof -
  have st: "0 \<le> i \<and> i \<le> 180 \<and> i mod 5 = 0"
    using on_step_lookup [OF assms(1,2)] by simp
  show ?thesis
  proof (cases "0 < i")
    case True
    then have "0 \<le> i - 5" using st by presburger
    then have m: "max 0 (i - 5) = i - 5" by simp
    from assms(3) True show ?thesis
      unfolding teach_minus [OF assms(4,2)] m by (simp add: bind_continue)
  next
    case False
    then have "i = 0" using st by simp
    then show ?thesis
      using assms(3) dict_set_same [OF assms(2)] unfolding teach_minus [OF assms(4,2)] by simp
  qed
qed

lemma move_default_home:
  "device s = Some usb_device \<Longrightarrow>
   move_to_angles default_home 1000 s
     = (Inr True, s\<lparr>trace := trace s @ [Write (hid_report home_frame), Sleep lit_0_05]\<rparr>)"
  by (simp add: default_home_def home_frame_def run_eval positions_eval_more)

lemma step_aligned_default: "step_aligned default_home"
  by (simp add: step_aligned_def default_home_def)

lemma teach_default_plus:
  "teach_iteration ''x'' ''+'' default_home 1
     (fresh_robot\<lparr>trace := [Write (hid_report home_frame), Sleep lit_0_05]\<rparr>)
     = (Inr (Continue [(KInt 1, PyInt 85), (KInt 2, PyInt 90), (KInt 3, PyInt 180),
                       (KInt 4, PyInt 130), (KInt 5, PyInt 90), (KInt 6, PyInt 70)] 1),
        fresh_robot\<lparr>trace :=
          [Write (hid_report home_frame), Sleep lit_0_05,
           Write (hid_report [0x55, 0x55, 23, 3, 6, 0xC8, 0, 1, 0xA4, 5, 2, 0xDC, 5, 3, 0xC4, 9,
                              4, 0x98, 7, 5, 0xDC, 5, 6, 0xFD, 4]),
           Sleep lit_0_05]\<rparr>)"
  by (simp add: teach_plus [OF strip_plain(1)] dict_get_def default_home_def fresh_robot_def
        run_eval positions_eval_more positions_eval_teach)

lemma teach_iteration_keys:
  assumes "teach_iteration name line angles n s = (Inr (Continue angles' n'), s')"
  shows "map fst angles' = map fst angles"
  using teach_iteration_continue [OF assms] by (auto simp: keys_dict_set)

lemma teach_reach_keys:
  "teach_reach name s0 st \<Longrightarrow> map fst (fst st) = map fst (home_position s0)"
proof (induction rule: teach_reach.induct)
  case (teach_start b s1)
  then show ?case by simp
next
  case (teach_step angles n s line angles' n' s')
  then show ?case using teach_iteration_keys [of name line angles n s angles' n' s'] by simp
qed

lemma teach_iteration_saved:
  assumes "teach_iteration name line angles n s = (Inr (Return True), s')"
  shows "saved_positions s' = dict_set name angles (saved_positions s)"
proof (cases "dict_get angles (KInt n)")
  case None
  then show ?thesis using assms by (simp add: teach_iteration_def raise_def)
next
  case (Some a)
  show ?thesis
  proof (cases "strip line = ''q''")
    case True
    then show ?thesis using assms Some by (simp add: teach_iteration_def ret_def)
  next
    case q: False
    show ?thesis
    proof (cases "strip line = ''s''")
      case True
      then show ?thesis using assms Some
        by (auto simp: teach_iteration_def ret_def bind_prog_def save_positions_def)
    next
      case sv: False
      show ?thesis
      proof (cases "is_substring (strip line) ''123456''")
        case True
        then show ?thesis using assms Some q sv
          by (auto simp: teach_iteration_def ret_def raise_def split: sum.splits)
      next
        case sub: False
        have b: "bind_prog m (\<lambda>_. ret (Continue new k)) s \<noteq> (Inr (Return True), s')"
          for m :: "bool prog" and new k
          by (cases "m s") (auto simp: bind_prog_def ret_def split: sum.splits)
        show ?thesis using assms Some q sv sub b
          by (auto simp: teach_iteration_def Let_def ret_def split: if_splits)
      qed
    qed
  qed
qed


lemma teach_save:
  assumes "strip line = ''s''" "dict_get angles (KInt n) = Some a"
  shows "teach_iteration name line angles n s =
           (Inr (Return True),
            s\<lparr>saved_positions := dict_set name angles (saved_positions s),
               positions_file := Some (json_dump (dict_set name angles (saved_positions s)))\<rparr>)"
  using assms
  by (simp add: teach_iteration_def Let_def bind_prog_def save_positions_def ret_def)

lemma teach_loop_commits:
  assumes "teach_reach name s0 (angles, n, s)"
    and "teach_loop name inputs angles n s = (Inr True, s')"
  shows "\<exists>angles' n' s1 line.
           teach_reach name s0 (angles', n', s1)
           \<and> teach_iteration name line angles' n' s1 = (Inr (Return True), s')"
  using assms
proof (induction inputs arbitrary: angles n s)
  case Nil
  then show ?case by (simp split: option.splits)
next
  case (Cons line rest)
  obtain r s1 where it: "teach_iteration name line angles n s = (r, s1)"
    by (cases "teach_iteration name line angles n s")
  show ?case
  proof (cases r)
    case (Inl e)
    then show ?thesis using Cons.prems(2) it by simp
  next
    case (Inr outcome)
    show ?thesis
    proof (cases outcome)
      case (Return b)
      then have "b = True" "s1 = s'" using Cons.prems(2) it Inr by simp_all
      then show ?thesis using Cons.prems(1) it Inr Return by blast
    next
      case (Continue angles1 n1)
      then have step: "teach_reach name s0 (angles1, n1, s1)"
        using teach_step [OF Cons.prems(1)] it Inr by simp
      have "teach_loop name rest angles1 n1 s1 = (Inr True, s')"
        using Cons.prems(2) it Inr Continue by simp
      from Cons.IH [OF step this] show ?thesis .
    qed
  qed
qed

lemma teach_position_commits:
  assumes "teach_position name inputs s0 = (Inr True, s')"
  shows "\<exists>angles n s1 line.
           teach_reach name s0 (angles, n, s1)
           \<and> teach_iteration name line angles n s1 = (Inr (Return True), s')"
proof -
  obtain r s1 where m: "move_to_angles (home_position s0) 1000 s0 = (r, s1)"
    by (cases "move_to_angles (home_position s0) 1000 s0")
  show ?thesis
  proof (cases r)
    case (Inl e)
    then show ?thesis using assms m by (simp add: teach_position_def bind_prog_def)
  next
    case (Inr b)
    then have start: "teach_reach name s0 (home_position s0, 1, s1)"
      using teach_start m by blast
    have "teach_loop name inputs (home_position s0) 1 s1 = (Inr True, s')"
      using assms m Inr by (simp add: teach_position_def bind_prog_def)
    from teach_loop_commits [OF start this] show ?thesis .
  qed
qed

lemma teach_position_saved:
  assumes "teach_position name inputs s0 = (Inr True, s')"
  shows "\<exists>angles n s1. teach_reach name s0 (angles, n, s1)
           \<and> dict_get (saved_positions s') name = Some angles"
proof -
  from teach_position_commits [OF assms] obtain angles n s1 line where
    r: "teach_reach name s0 (angles, n, s1)"
    and c: "teach_iteration name line angles n s1 = (Inr (Return True), s')" by blast
  have "saved_positions s' = dict_set name angles (saved_positions s1)"
    using teach_iteration_saved [OF c] .
  then have "dict_get (saved_positions s') name = Some angles"
    by (simp add: dict_get_dict_set)
  then show ?thesis using r by blast
qed

lemma teach_position_in_range:
  assumes "step_aligned (home_position s0)" "teach_position name inputs s0 = (Inr True, s')"
  shows "\<exists>angles. dict_get (saved_positions s') name = Some angles \<and> angles_within angles"
proof -
  from teach_position_saved [OF assms(2)] obtain angles n s1 where
    r: "teach_reach name s0 (angles, n, s1)"
    and g: "dict_get (saved_positions s') name = Some angles" by blast
  have "step_aligned (fst (angles, n, s1))" using teach_reach_aligned [OF r assms(1)] by blast
  then show ?thesis using g step_aligned_within by auto
qed

lemma teach_position_int_keyed:
  assumes "int_keyed (home_position s0)" "teach_position name inputs s0 = (Inr True, s')"
  shows "\<exists>angles. dict_get (saved_positions s') name = Some angles \<and> int_keyed angles"
proof -
  from teach_position_saved [OF assms(2)] obtain angles n s1 where
    r: "teach_reach name s0 (angles, n, s1)"
    and g: "dict_get (saved_positions s') name = Some angles" by blast
  have "map fst (fst (angles, n, s1)) = map fst (home_position s0)"
    using teach_reach_keys [OF r] .
  then have "int_keyed angles" using assms(1) by (simp add: int_keyed_def)
  then show ?thesis using g by blast
qed

lemma teach_position_default_plus:
  "teach_position ''x'' [''+'', ''s''] fresh_robot
     = (Inr True,
        fresh_robot\<lparr>
          saved_positions :=
            [(''x'', [(KInt 1, PyInt 85), (KInt 2, PyInt 90), (KInt 3, PyInt 180),
                      (KInt 4, PyInt 130), (KInt 5, PyInt 90), (KInt 6, PyInt 70)])],
          positions_file :=
            Some (json_dump
              [(''x'', [(KInt 1, PyInt 85), (KInt 2, PyInt 90), (KInt 3, PyInt 180),
                        (KInt 4, PyInt 130), (KInt 5, PyInt 90), (KInt 6, PyInt 70)])]),
          trace :=
            [Write (hid_report home_frame), Sleep lit_0_05,
             Write (hid_report [0x55, 0x55, 23, 3, 6, 0xC8, 0, 1, 0xA4, 5, 2, 0xDC, 5, 3, 0xC4, 9,
                                4, 0x98, 7, 5, 0xDC, 5, 6, 0xFD, 4]),
             Sleep lit_0_05]\<rparr>)"
proof -
  have h: "home_position fresh_robot = default_home" by (simp add: fresh_robot_def)
  have d: "device fresh_robot = Some usb_device" by (simp add: fresh_robot_def)
  have t: "trace fresh_robot = []" by (simp add: fresh_robot_def)
  have g: "dict_get [(KInt 1, PyInt 85), (KInt 2, PyInt 90), (KInt 3, PyInt 180),
                     (KInt 4, PyInt 130), (KInt 5, PyInt 90), (KInt 6, PyInt 70)] (KInt 1)
             = Some (PyInt 85)"
    by (simp add: dict_get_def)
  show ?thesis
    unfolding teach_position_def Let_def h
    by (simp add: bind_prog_def move_default_home [OF d] t teach_default_plus
          teach_save [OF strip_plain(3) g])
       (simp add: fresh_robot_def)
qed

lemma teach_position_default_save:
  "teach_position ''k'' [''s''] fresh_robot = (Inr True, taught_robot)"
proof -
  have h: "home_position fresh_robot = default_home" by (simp add: fresh_robot_def)
  have d: "device fresh_robot = Some usb_device" by (simp add: fresh_robot_def)
  have t: "trace fresh_robot = []" by (simp add: fresh_robot_def)
  have g: "dict_get default_home (KInt 1) = Some (PyInt 80)"
    by (simp add: dict_get_def default_home_def)
  show ?thesis
    unfolding teach_position_def Let_def h
    by (simp add: bind_prog_def move_default_home [OF d] t
          teach_save [OF strip_plain(3) g])
       (simp add: fresh_robot_def taught_robot_def)
qed

text \<open>
  C9. The angles do not stay in \<open>[0, 180]\<close> from every home position in that range: the
  guard \<open>< 180\<close> lets an angle that is off the 5-degree grid step past the bound. From
  the home position with servo 1 at 178 degrees, every angle of which lies in
  \<open>[0, 180]\<close>, one increment and a commit store the position with servo 1 at 183
  degrees, after the move to 183 degrees (raw position 2533) was written.
\<close>

theorem teach_position_off_grid:
  "angles_within (home_position offset_robot)
   \<and> teach_position ''x'' [''+'', ''s''] offset_robot
     = (Inr True,
        offset_robot\<lparr>
          saved_positions := [(''x'', offset_taught)],
          positions_file := Some (json_dump [(''x'', offset_taught)]),
          trace :=
            [Write (hid_report [0x55, 0x55, 23, 3, 6, 0xE8, 3, 1, 0xAD, 9, 2, 0xDC, 5, 3, 0xC4, 9,
                                4, 0x98, 7, 5, 0xDC, 5, 6, 0xFD, 4]),
             Sleep lit_0_05,
             Write (hid_report [0x55, 0x55, 23, 3, 6, 0xC8, 0, 1, 0xE5, 9, 2, 0xDC, 5, 3, 0xC4, 9,
                                4, 0x98, 7, 5, 0xDC, 5, 6, 0xFD, 4]),
             Sleep lit_0_05]\<rparr>)
   \<and> dict_get offset_taught (KInt 1) = Some (PyInt 183)
   \<and> \<not> angles_within offset_taught"
proof -
  have h: "home_position offset_robot = offset_home" by (simp add: offset_robot_def)
  have w: "angles_within (home_position offset_robot)"
    by (simp add: h offset_home_def angles_within_def)
  have g: "dict_get offset_home (KInt 1) = Some (PyInt 178)"
    by (simp add: dict_get_def offset_home_def)
  have g': "dict_get offset_taught (KInt 1) = Some (PyInt 183)"
    by (simp add: dict_get_def offset_taught_def)
  have up: "dict_set (KInt 1) (PyInt 183) offset_home = offset_taught"
    by (simp add: offset_home_def offset_taught_def)
  have m1: "move_to_angles offset_home 1000 offset_robot
     = (Inr True,
        offset_robot\<lparr>trace :=
          [Write (hid_report [0x55, 0x55, 23, 3, 6, 0xE8, 3, 1, 0xAD, 9, 2, 0xDC, 5, 3, 0xC4, 9,
                              4, 0x98, 7, 5, 0xDC, 5, 6, 0xFD, 4]),
           Sleep lit_0_05]\<rparr>)"
    by (simp add: offset_home_def offset_robot_def fresh_robot_def run_eval positions_eval_more
          positions_eval_teach)
  have m2: "move_to_angles offset_taught 200
        (offset_robot\<lparr>trace :=
          [Write (hid_report [0x55, 0x55, 23, 3, 6, 0xE8, 3, 1, 0xAD, 9, 2, 0xDC, 5, 3, 0xC4, 9,
                              4, 0x98, 7, 5, 0xDC, 5, 6, 0xFD, 4]),
           Sleep lit_0_05]\<rparr>)
     = (Inr True,
        offset_robot\<lparr>trace :=
          [Write (hid_report [0x55, 0x55, 23, 3, 6, 0xE8, 3, 1, 0xAD, 9, 2, 0xDC, 5, 3, 0xC4, 9,
                              4, 0x98, 7, 5, 0xDC, 5, 6, 0xFD, 4]),
           Sleep lit_0_05,
           Write (hid_report [0x55, 0x55, 23, 3, 6, 0xC8, 0, 1, 0xE5, 9, 2, 0xDC, 5, 3, 0xC4, 9,
                              4, 0x98, 7, 5, 0xDC, 5, 6, 0xFD, 4]),
           Sleep lit_0_05]\<rparr>)"
    by (simp add: offset_taught_def offset_robot_def fresh_robot_def run_eval positions_eval_more
          positions_eval_teach)
  have t: "teach_position ''x'' [''+'', ''s''] offset_robot
     = (Inr True,
        offset_robot\<lparr>
          saved_positions := [(''x'', offset_taught)],
          positions_file := Some (json_dump [(''x'', offset_taught)]),
          trace :=
            [Write (hid_report [0x55, 0x55, 23, 3, 6, 0xE8, 3, 1, 0xAD, 9, 2, 0xDC, 5, 3, 0xC4, 9,
                                4, 0x98, 7, 5, 0xDC, 5, 6, 0xFD, 4]),
             Sleep lit_0_05,
             Write (hid_report [0x55, 0x55, 23, 3, 6, 0xC8, 0, 1, 0xE5, 9, 2, 0xDC, 5, 3, 0xC4, 9,
                                4, 0x98, 7, 5, 0xDC, 5, 6, 0xFD, 4]),
             Sleep lit_0_05]\<rparr>)"
    unfolding teach_position_def Let_def h
    by (simp add: bind_prog_def m1 teach_plus [OF strip_plain(1) g] up m2 ret_def
          teach_save [OF strip_plain(3) g'])
       (simp add: offset_robot_def fresh_robot_def)
  have n: "\<not> angles_within offset_taught"
    by (simp add: offset_taught_def angles_within_def)
  show ?thesis using w t g' n by blast
qed

text \<open>
  On the grid the guards do keep the range. From a home position whose angles are
  integers and multiples of 5 in \<open>[0, 180]\<close>, as the default home position is, every
  state of the teaching loop has its angles in \<open>[0, 180]\<close>, on the grid and under the keys
  of the home position; an increment sets the selected angle \<open>i\<close> to \<open>min 180 (i + 5)\<close>
  and a decrement to \<open>max 0 (i - 5)\<close>, and the committed position lies in the range.
\<close>

lemma teach_on_grid_in_range:
  "(step_aligned (home_position s0) \<and> teach_reach name s0 (angles, n, s) \<longrightarrow>
      angles_within angles \<and> step_aligned angles
      \<and> map fst angles = map fst (home_position s0))
   \<and> (step_aligned angles \<and> dict_get angles (KInt n) = Some (PyInt i)
        \<and> teach_iteration name line angles n s = (Inr (Continue angles' n'), s') \<longrightarrow>
        (strip line = ''+'' \<longrightarrow>
           angles' = dict_set (KInt n) (PyInt (min 180 (i + 5))) angles \<and> n' = n)
        \<and> (strip line = ''-'' \<longrightarrow>
           angles' = dict_set (KInt n) (PyInt (max 0 (i - 5))) angles \<and> n' = n))
   \<and> (step_aligned (home_position s0) \<and> teach_position name inputs s0 = (Inr True, s_end)
        \<longrightarrow> (\<exists>taught. dict_get (saved_positions s_end) name = Some taught
                      \<and> angles_within taught))"
proof (intro conjI impI)
  assume a: "step_aligned (home_position s0) \<and> teach_reach name s0 (angles, n, s)"
  then have r: "step_aligned (fst (angles, n, s))
      \<and> map fst (fst (angles, n, s)) = map fst (home_position s0)"
    using teach_reach_aligned [of name s0 "(angles, n, s)"] by blast
  then show "step_aligned angles" "map fst angles = map fst (home_position s0)" by simp_all
  then show "angles_within angles" by (simp add: step_aligned_within)
next
  assume a: "step_aligned angles \<and> dict_get angles (KInt n) = Some (PyInt i)
        \<and> teach_iteration name line angles n s = (Inr (Continue angles' n'), s')"
  {
    assume "strip line = ''+''"
    with a teach_plus_aligned [of angles n i name line s angles' n' s']
    show "angles' = dict_set (KInt n) (PyInt (min 180 (i + 5))) angles" "n' = n" by simp_all
  }
  {
    assume "strip line = ''-''"
    with a teach_minus_aligned [of angles n i name line s angles' n' s']
    show "angles' = dict_set (KInt n) (PyInt (max 0 (i - 5))) angles" "n' = n" by simp_all
  }
next
  assume "step_aligned (home_position s0) \<and> teach_position name inputs s0 = (Inr True, s_end)"
  then show "\<exists>taught. dict_get (saved_positions s_end) name = Some taught
                      \<and> angles_within taught"
    using teach_position_in_range by blast
qed


lemma teach_on_grid_example:
  "step_aligned (home_position fresh_robot)
   \<and> teach_reach ''x'' fresh_robot
        ([(KInt 1, PyInt 85), (KInt 2, PyInt 90), (KInt 3, PyInt 180),
          (KInt 4, PyInt 130), (KInt 5, PyInt 90), (KInt 6, PyInt 70)], 1,
         fresh_robot\<lparr>trace :=
           [Write (hid_report home_frame), Sleep lit_0_05,
            Write (hid_report [0x55, 0x55, 23, 3, 6, 0xC8, 0, 1, 0xA4, 5, 2, 0xDC, 5, 3, 0xC4, 9,
                               4, 0x98, 7, 5, 0xDC, 5, 6, 0xFD, 4]),
            Sleep lit_0_05]\<rparr>)
   \<and> angles_within [(KInt 1, PyInt 85), (KInt 2, PyInt 90), (KInt 3, PyInt 180),
                    (KInt 4, PyInt 130), (KInt 5, PyInt 90), (KInt 6, PyInt 70)]
   \<and> dict_get default_home (KInt 1) = Some (PyInt 80)
   \<and> strip ''+'' = ''+''
   \<and> [(KInt 1, PyInt 85), (KInt 2, PyInt 90), (KInt 3, PyInt 180),
       (KInt 4, PyInt 130), (KInt 5, PyInt 90), (KInt 6, PyInt 70)]
       = dict_set (KInt 1) (PyInt (min 180 (80 + 5))) default_home
   \<and> fst (teach_position ''x'' [''+'', ''s''] fresh_robot) = Inr True
   \<and> (\<exists>taught. dict_get (saved_positions (snd (teach_position ''x'' [''+'', ''s''] fresh_robot)))
                      ''x'' = Some taught
                \<and> angles_within taught)"
proof -
  let ?a85 = "[(KInt 1, PyInt 85), (KInt 2, PyInt 90), (KInt 3, PyInt 180),
               (KInt 4, PyInt 130), (KInt 5, PyInt 90), (KInt 6, PyInt 70)]"
  let ?s1 = "fresh_robot\<lparr>trace := [Write (hid_report home_frame), Sleep lit_0_05]\<rparr>"
  let ?s2 = "fresh_robot\<lparr>trace :=
           [Write (hid_report home_frame), Sleep lit_0_05,
            Write (hid_report [0x55, 0x55, 23, 3, 6, 0xC8, 0, 1, 0xA4, 5, 2, 0xDC, 5, 3, 0xC4, 9,
                               4, 0x98, 7, 5, 0xDC, 5, 6, 0xFD, 4]),
            Sleep lit_0_05]\<rparr>"
  have h: "home_position fresh_robot = default_home" by (simp add: fresh_robot_def)
  have d: "device fresh_robot = Some usb_device" by (simp add: fresh_robot_def)
  have t: "trace fresh_robot = []" by (simp add: fresh_robot_def)
  have al: "step_aligned (home_position fresh_robot)" by (simp add: h step_aligned_default)
  have "teach_reach ''x'' fresh_robot (home_position fresh_robot, 1, ?s1)"
    by (rule teach_start [where b = True]) (simp add: h move_default_home [OF d] t)
  then have r: "teach_reach ''x'' fresh_robot (?a85, 1, ?s2)"
    unfolding h by (rule teach_step [where line = "''+''"]) (rule teach_default_plus)
  have g: "dict_get default_home (KInt 1) = Some (PyInt 80)"
    by (simp add: dict_get_def default_home_def)
  from teach_on_grid_in_range [of fresh_robot "''x''" ?a85 1 ?s2] al r
  have w: "angles_within ?a85" by blast
  from teach_on_grid_in_range [of fresh_robot "''x''" default_home 1 ?s1 80 "''+''" ?a85 1 ?s2]
    step_aligned_default g teach_default_plus strip_plain(1)
  have e: "?a85 = dict_set (KInt 1) (PyInt (min 180 (80 + 5))) default_home" by blast
  have f: "fst (teach_position ''x'' [''+'', ''s''] fresh_robot) = Inr True"
    by (simp only: teach_position_default_plus fst_conv)
  then have "teach_position ''x'' [''+'', ''s''] fresh_robot
               = (Inr True, snd (teach_position ''x'' [''+'', ''s''] fresh_robot))"
    by (simp add: prod_eq_iff)
  with teach_on_grid_in_range [of fresh_robot "''x''" _ _ _ _ _ _ _ _ "[''+'', ''s'']"
         "snd (teach_position ''x'' [''+'', ''s''] fresh_robot)"] al
  have c: "\<exists>taught. dict_get (saved_positions (snd (teach_position ''x'' [''+'', ''s''] fresh_robot)))
                      ''x'' = Some taught
                \<and> angles_within taught"
    by blast
  show ?thesis using al r w g strip_plain(1) e f c by blast
qed

text \<open>
  C10. \<open>press_button\<close> needs the string key \<open>'5'\<close> in the angle map of the position. For
  every position stored with integer servo keys it ends in an exception and never in a
  result; when the hover move can be encoded and the device takes it, the exception is the
  \<open>TypeError\<close> of \<open>float(None)\<close>, raised after the hover move was written and its settle
  time slept. It completes normally only on a stored position that has the string key.
  A position that \<open>teach_position\<close> commits from a home position with integer keys is
  stored in memory with integer keys, and pressing it in the same session ends in an
  exception.
\<close>

theorem press_button_int_keys:
  "(dict_get (saved_positions s) position_name = Some position \<and> int_keyed position \<longrightarrow>
      (\<exists>e s'. press_button position_name press_depth press_time return_home s = (Inl e, s'))
      \<and> (servo_moves position 1000 = Inr servos_data \<and> device s = Some accepts
             \<and> accepts (hid_report (build_servo_packet servos_data)) \<longrightarrow>
           press_button position_name press_depth press_time return_home s =
             (Inl TypeError,
              s\<lparr>trace := trace s @ [Executing position_name,
                                     Write (hid_report (build_servo_packet servos_data)),
                                     Sleep lit_0_05, Sleep lit_1_5]\<rparr>)))
   \<and> (press_button position_name press_depth press_time return_home s = (Inr True, s') \<longrightarrow>
        (\<exists>found a. dict_get (saved_positions s) position_name = Some found
                   \<and> dict_get found servo_to_press = Some a))
   \<and> (int_keyed (home_position s0) \<and> teach_position name inputs s0 = (Inr True, s1) \<longrightarrow>
        (\<exists>taught. dict_get (saved_positions s1) name = Some taught \<and> int_keyed taught)
        \<and> (\<exists>e s2. press_button name press_depth press_time return_home s1 = (Inl e, s2)))"
proof (intro conjI impI)
  assume a: "dict_get (saved_positions s) position_name = Some position \<and> int_keyed position"
  then show "\<exists>e s'. press_button position_name press_depth press_time return_home s = (Inl e, s')"
    using press_button_no_five int_keyed_no_five by blast
  assume "servo_moves position 1000 = Inr servos_data \<and> device s = Some accepts
             \<and> accepts (hid_report (build_servo_packet servos_data))"
  then show "press_button position_name press_depth press_time return_home s =
             (Inl TypeError,
              s\<lparr>trace := trace s @ [Executing position_name,
                                     Write (hid_report (build_servo_packet servos_data)),
                                     Sleep lit_0_05, Sleep lit_1_5]\<rparr>)"
    using a press_button_hover_then_raise int_keyed_no_five by blast
next
  assume r: "press_button position_name press_depth press_time return_home s = (Inr True, s')"
  show "\<exists>found a. dict_get (saved_positions s) position_name = Some found
                   \<and> dict_get found servo_to_press = Some a"
  proof (cases "dict_get (saved_positions s) position_name")
    case None
    then show ?thesis using r by (simp add: press_button_not_found)
  next
    case (Some found)
    show ?thesis
    proof (cases "dict_get found servo_to_press")
      case None
      with press_button_no_five [OF Some None, of press_depth press_time return_home] r
      show ?thesis by auto
    next
      case (Some a)
      then show ?thesis using \<open>dict_get (saved_positions s) position_name = Some found\<close> by blast
    qed
  qed
next
  assume t: "int_keyed (home_position s0) \<and> teach_position name inputs s0 = (Inr True, s1)"
  then obtain taught where
    g: "dict_get (saved_positions s1) name = Some taught" and k: "int_keyed taught"
    using teach_position_int_keyed by blast
  then show "\<exists>taught. dict_get (saved_positions s1) name = Some taught \<and> int_keyed taught"
    by blast
  show "\<exists>e s2. press_button name press_depth press_time return_home s1 = (Inl e, s2)"
    using press_button_no_five [OF g int_keyed_no_five [OF k]] .
qed

theorem press_button_int_keys_witness:
  "int_keyed (home_position fresh_robot)
   \<and> teach_position ''k'' [''s''] fresh_robot = (Inr True, taught_robot)
   \<and> dict_get (saved_positions taught_robot) ''k'' = Some default_home
   \<and> int_keyed default_home
   \<and> servo_moves default_home 1000
       = Inr [(1, 1388, 1000), (2, 1500, 1000), (3, 2500, 1000),
              (4, 1944, 1000), (5, 1500, 1000), (6, 1277, 1000)]
   \<and> device taught_robot = Some usb_device
   \<and> press_button ''k'' (PyInt 6) 500 True taught_robot =
       (Inl TypeError,
        taught_robot\<lparr>trace := [Write (hid_report home_frame), Sleep lit_0_05,
                                 Executing ''k'', Write (hid_report home_frame),
                                 Sleep lit_0_05, Sleep lit_1_5]\<rparr>)"
proof -
  let ?ms = "[(1, 1388, 1000), (2, 1500, 1000), (3, 2500, 1000),
              (4, 1944, 1000), (5, 1500, 1000), (6, 1277, 1000)] :: servo_move list"
  have ik: "int_keyed (home_position fresh_robot)"
    by (simp add: fresh_robot_def int_keyed_def default_home_def)
  have g: "dict_get (saved_positions taught_robot) ''k'' = Some default_home"
    by (simp add: taught_robot_def dict_get_def)
  have ik': "int_keyed default_home" by (simp add: int_keyed_def default_home_def)
  note inst = press_button_int_keys [of taught_robot "''k''" default_home "PyInt 6" 500 True ?ms
      usb_device _ fresh_robot "''k''" "[''s'']" taught_robot]
  have m: "servo_moves default_home 1000 = Inr ?ms"
    by (simp add: default_home_def positions_eval positions_eval_more)
  have f: "build_servo_packet ?ms = home_frame"
    by (simp add: build_servo_packet_def FRAME_HEADER_def CMD_SERVO_MOVE_def home_frame_def)
  have dt: "device taught_robot = Some usb_device"
    by (simp add: taught_robot_def fresh_robot_def)
  have u: "usb_device (hid_report (build_servo_packet ?ms))"
    by (simp add: f usb_device_report home_frame_def)
  from inst g ik' m dt u
  have "press_button ''k'' (PyInt 6) 500 True taught_robot =
          (Inl TypeError,
           taught_robot\<lparr>trace := trace taught_robot @ [Executing ''k'',
                                     Write (hid_report (build_servo_packet ?ms)),
                                     Sleep lit_0_05, Sleep lit_1_5]\<rparr>)"
    by blast
  then have p: "press_button ''k'' (PyInt 6) 500 True taught_robot =
       (Inl TypeError,
        taught_robot\<lparr>trace := [Write (hid_report home_frame), Sleep lit_0_05,
                                 Executing ''k'', Write (hid_report home_frame),
                                 Sleep lit_0_05, Sleep lit_1_5]\<rparr>)"
    by (simp add: f taught_robot_def)
  from inst ik teach_position_default_save
  have "\<exists>e s2. press_button ''k'' (PyInt 6) 500 True taught_robot = (Inl e, s2)" by blast
  then show ?thesis using ik teach_position_default_save g ik' m dt p by blast
qed

end
